theory Spec2Isabelle
  imports Complex_Main
begin

section \<open>Floating-point values\<close>

text \<open>
  The arrays of \<^verbatim>\<open>LIM_analysis.py\<close> hold IEEE doubles. A double is modelled as a real
  number or one of the three special values. Arithmetic on finite values is exact:
  rounding, overflow and the sign of zero are not modelled (a zero divisor behaves as
  \<open>+0.0\<close>). What the code does with missing values and with infinities is modelled as
  NumPy does it: no arithmetic operation raises, it returns a special value.
\<close>

datatype fval = Fin real | PInf | NInf | NaN

fun isfinite :: "fval \<Rightarrow> bool" where
  "isfinite (Fin _) = True"
| "isfinite _ = False"

fun isnan :: "fval \<Rightarrow> bool" where
  "isnan NaN = True"
| "isnan _ = False"

fun isinf :: "fval \<Rightarrow> bool" where
  "isinf PInf = True"
| "isinf NInf = True"
| "isinf _ = False"

fun fneg :: "fval \<Rightarrow> fval" where
  "fneg (Fin a) = Fin (- a)"
| "fneg PInf = NInf"
| "fneg NInf = PInf"
| "fneg NaN = NaN"

fun fadd :: "fval \<Rightarrow> fval \<Rightarrow> fval" where
  "fadd (Fin a) (Fin b) = Fin (a + b)"
| "fadd (Fin a) PInf = PInf"
| "fadd (Fin a) NInf = NInf"
| "fadd PInf (Fin b) = PInf"
| "fadd PInf PInf = PInf"
| "fadd PInf NInf = NaN"
| "fadd NInf (Fin b) = NInf"
| "fadd NInf PInf = NaN"
| "fadd NInf NInf = NInf"
| "fadd NaN _ = NaN"
| "fadd _ NaN = NaN"

definition signed_inf :: "bool \<Rightarrow> fval" where
  "signed_inf pos = (if pos then PInf else NInf)"

fun fmul :: "fval \<Rightarrow> fval \<Rightarrow> fval" where
  "fmul (Fin a) (Fin b) = Fin (a * b)"
| "fmul (Fin a) PInf = (if a = 0 then NaN else signed_inf (0 < a))"
| "fmul (Fin a) NInf = (if a = 0 then NaN else signed_inf (a < 0))"
| "fmul PInf (Fin b) = (if b = 0 then NaN else signed_inf (0 < b))"
| "fmul NInf (Fin b) = (if b = 0 then NaN else signed_inf (b < 0))"
| "fmul PInf PInf = PInf"
| "fmul PInf NInf = NInf"
| "fmul NInf PInf = NInf"
| "fmul NInf NInf = PInf"
| "fmul NaN _ = NaN"
| "fmul _ NaN = NaN"

fun fdiv :: "fval \<Rightarrow> fval \<Rightarrow> fval" where
  "fdiv (Fin a) (Fin b) =
     (if b \<noteq> 0 then Fin (a / b) else if a = 0 then NaN else signed_inf (0 < a))"
| "fdiv (Fin a) PInf = Fin 0"
| "fdiv (Fin a) NInf = Fin 0"
| "fdiv PInf (Fin b) = signed_inf (0 \<le> b)"
| "fdiv NInf (Fin b) = signed_inf (b < 0)"
| "fdiv PInf PInf = NaN"
| "fdiv PInf NInf = NaN"
| "fdiv NInf PInf = NaN"
| "fdiv NInf NInf = NaN"
| "fdiv NaN _ = NaN"
| "fdiv _ NaN = NaN"

text \<open>\<^verbatim>\<open>np.nansum\<close>: the sum of the array with every NaN replaced by zero.\<close>

definition nan_to_zero :: "fval \<Rightarrow> fval" where
  "nan_to_zero x = (if isnan x then Fin 0 else x)"

definition nansum :: "fval list \<Rightarrow> fval" where
  "nansum xs = foldr fadd (map nan_to_zero xs) (Fin 0)"

text \<open>\<^verbatim>\<open>np.nansum(np.isfinite(p))\<close>: the number of finite entries, an integer.\<close>

definition count_finite :: "fval list \<Rightarrow> nat" where
  "count_finite xs = length (filter isfinite xs)"

section \<open>Errors\<close>

text \<open>
  The exceptions the code can raise: \<^verbatim>\<open>np.full\<close> with a negative dimension, an index
  outside the array, an elementwise product of arrays whose lengths do not broadcast,
  and the \<^verbatim>\<open>LinAlgError\<close> of \<^verbatim>\<open>numpy.linalg\<close> (\<open>Singular matrix\<close>, or any other).
\<close>

datatype error =
    NegativeDimensions
  | IndexOutOfBounds
  | BroadcastError
  | SingularMatrix
  | LinAlgOther

section \<open>Step 1: the covariance matrices\<close>

text \<open>
  The input \<^verbatim>\<open>xDat\<close> is a two-dimensional array, given as the list of its rows
  (all of one length); \<^verbatim>\<open>np.shape\<close> gives the number of rows and their length.
\<close>

type_synonym rmatrix = "fval list list"

definition nDat_of :: "rmatrix \<Rightarrow> nat" where
  "nDat_of X = length X"

definition nT_of :: "rmatrix \<Rightarrow> nat" where
  "nT_of X = (case X of [] \<Rightarrow> 0 | r # _ \<Rightarrow> length r)"

definition rectangular :: "rmatrix \<Rightarrow> bool" where
  "rectangular X = list_all (\<lambda>r. length r = nT_of X) X"

text \<open>\<^verbatim>\<open>xDat[:, k]\<close>: a negative index counts from the end, an index out of range raises.\<close>

definition get_col :: "rmatrix \<Rightarrow> int \<Rightarrow> error + fval list" where
  "get_col X k =
     (let n = int (nT_of X); j = (if k < 0 then n + k else k)
      in if 0 \<le> j \<and> j < n then Inr (map (\<lambda>r. r ! nat j) X) else Inl IndexOutOfBounds)"

text \<open>\<^verbatim>\<open>xLagged[:, iT] = c\<close> for \<open>iT\<close> inside the array.\<close>

definition set_col :: "rmatrix \<Rightarrow> nat \<Rightarrow> fval list \<Rightarrow> rmatrix" where
  "set_col M iT c = map (\<lambda>(r, v). r[iT := v]) (zip M c)"

text \<open>The loop \<^verbatim>\<open>for iT in range(nT-lag): xLagged[:,iT] = xDat[:,iT+lag]\<close>.\<close>

fun fill_lagged :: "rmatrix \<Rightarrow> int \<Rightarrow> nat list \<Rightarrow> rmatrix \<Rightarrow> error + rmatrix" where
  "fill_lagged X lag [] xl = Inr xl"
| "fill_lagged X lag (iT # rest) xl =
     (case get_col X (int iT + lag) of
        Inl e \<Rightarrow> Inl e
      | Inr c \<Rightarrow> fill_lagged X lag rest (set_col xl iT c))"

definition xLagged_of :: "rmatrix \<Rightarrow> int \<Rightarrow> error + rmatrix" where
  "xLagged_of X lag =
     (let w = int (nT_of X) - lag
      in if w < 0 then Inl NegativeDimensions
         else fill_lagged X lag [0..<nat w] (replicate (nDat_of X) (replicate (nat w) NaN)))"

text \<open>The slice \<^verbatim>\<open>a[:k]\<close>: a negative stop counts from the end.\<close>

definition slice_to :: "int \<Rightarrow> 'a list \<Rightarrow> 'a list" where
  "slice_to k a = (if k < 0 then take (nat (int (length a) + k)) a else take (nat k) a)"

text \<open>
  The elementwise product of two one-dimensional arrays: equal lengths, or one of the two
  of length one (it is then repeated); any other pair of lengths raises.
\<close>

definition bmul :: "fval list \<Rightarrow> fval list \<Rightarrow> error + fval list" where
  "bmul a b =
     (if length a = length b then Inr (map (\<lambda>(x, y). fmul x y) (zip a b))
      else if length b = 1 then Inr (map (\<lambda>x. fmul x (b ! 0)) a)
      else if length a = 1 then Inr (map (\<lambda>y. fmul (a ! 0) y) b)
      else Inl BroadcastError)"

text \<open>\<^verbatim>\<open>np.nansum(a*b) / np.nansum(np.isfinite(a*b))\<close>\<close>

definition moment :: "fval list \<Rightarrow> fval list \<Rightarrow> error + fval" where
  "moment a b =
     (case bmul a b of
        Inl e \<Rightarrow> Inl e
      | Inr p \<Rightarrow> Inr (fdiv (nansum p) (Fin (real (count_finite p)))))"

text \<open>A loop that stops at the first exception.\<close>

fun traverse :: "('a \<Rightarrow> error + 'b) \<Rightarrow> 'a list \<Rightarrow> error + 'b list" where
  "traverse f [] = Inr []"
| "traverse f (x # xs) =
     (case f x of
        Inl e \<Rightarrow> Inl e
      | Inr y \<Rightarrow> (case traverse f xs of Inl e \<Rightarrow> Inl e | Inr ys \<Rightarrow> Inr (y # ys)))"

text \<open>The body of the double loop: the entries \<open>(iR, iC)\<close> of \<open>c0\<close> and of \<open>cT\<close>.\<close>

definition cov_entry :: "rmatrix \<Rightarrow> rmatrix \<Rightarrow> int \<Rightarrow> nat \<Rightarrow> nat \<Rightarrow> error + (fval \<times> fval)" where
  "cov_entry X xl lag iR iC =
     (case moment (X ! iR) (X ! iC) of
        Inl e \<Rightarrow> Inl e
      | Inr a \<Rightarrow>
          (case moment (xl ! iR) (slice_to (- lag) (X ! iC)) of
             Inl e \<Rightarrow> Inl e
           | Inr b \<Rightarrow> Inr (a, b)))"

definition covariances :: "rmatrix \<Rightarrow> int \<Rightarrow> error + (rmatrix \<times> rmatrix)" where
  "covariances X lag =
     (case xLagged_of X lag of
        Inl e \<Rightarrow> Inl e
      | Inr xl \<Rightarrow>
          (case traverse (\<lambda>iR. traverse (cov_entry X xl lag iR) [0..<nDat_of X]) [0..<nDat_of X] of
             Inl e \<Rightarrow> Inl e
           | Inr M \<Rightarrow> Inr (map (map fst) M, map (map snd) M)))"

definition src_col :: "rmatrix \<Rightarrow> int \<Rightarrow> nat \<Rightarrow> nat" where
  "src_col X lag iT =
     nat (if int iT + lag < 0 then int (nT_of X) + (int iT + lag) else int iT + lag)"

fun val :: "fval \<Rightarrow> real" where
  "val (Fin a) = a"
| "val _ = 0"

definition spec_moment :: "(nat \<Rightarrow> fval) \<Rightarrow> (nat \<Rightarrow> fval) \<Rightarrow> nat \<Rightarrow> fval" where
  "spec_moment a b n =
     (let P = filter (\<lambda>t. isfinite (a t) \<and> isfinite (b t)) [0..<n]
      in fdiv (Fin (\<Sum>t\<leftarrow>P. val (a t) * val (b t))) (Fin (real (length P))))"

definition spec_c0 :: "rmatrix \<Rightarrow> nat \<Rightarrow> nat \<Rightarrow> fval" where
  "spec_c0 X i j = spec_moment (\<lambda>t. X ! i ! t) (\<lambda>t. X ! j ! t) (nT_of X)"

definition spec_cT :: "rmatrix \<Rightarrow> nat \<Rightarrow> nat \<Rightarrow> nat \<Rightarrow> fval" where
  "spec_cT X lag i j = spec_moment (\<lambda>t. X ! i ! (t + lag)) (\<lambda>t. X ! j ! t) (nT_of X - lag)"

definition real_or_missing :: "fval \<Rightarrow> bool" where
  "real_or_missing x = (isfinite x \<or> isnan x)"

definition valid_input :: "rmatrix \<Rightarrow> bool" where
  "valid_input X = (rectangular X \<and> list_all (list_all real_or_missing) X)"

section \<open>Complex values and arrays of either type\<close>

text \<open>
  A complex double is a pair of doubles. The product is NumPy's (the textbook formula on
  the components); a real value is cast to a complex one with imaginary part zero.
\<close>

datatype cval = Cx (re_part: fval) (im_part: fval)

definition czero :: cval where
  "czero = Cx (Fin 0) (Fin 0)"

definition of_fval :: "fval \<Rightarrow> cval" where
  "of_fval x = Cx x (Fin 0)"

fun cadd :: "cval \<Rightarrow> cval \<Rightarrow> cval" where
  "cadd (Cx a b) (Cx c d) = Cx (fadd a c) (fadd b d)"

fun cneg :: "cval \<Rightarrow> cval" where
  "cneg (Cx a b) = Cx (fneg a) (fneg b)"

fun cmul :: "cval \<Rightarrow> cval \<Rightarrow> cval" where
  "cmul (Cx a b) (Cx c d) =
     Cx (fadd (fmul a c) (fneg (fmul b d))) (fadd (fmul a d) (fmul b c))"

text \<open>
  A complex value divided by the integer \<open>lag\<close>: the integer is cast to \<open>lag + 0j\<close> and
  the quotient is computed by NumPy's scaled formula, which for a divisor with imaginary
  part zero reads as below.
\<close>

fun cdiv_int :: "cval \<Rightarrow> int \<Rightarrow> cval" where
  "cdiv_int (Cx a b) l =
     (if l = 0 then Cx (fdiv a (Fin 0)) (fdiv b (Fin 0))
      else let scl = Fin (1 / real_of_int l)
           in Cx (fmul (fadd a (fmul b (Fin 0))) scl)
                 (fmul (fadd b (fneg (fmul a (Fin 0)))) scl))"

text \<open>
  A NumPy array is of real or of complex type, and the operations of the code depend
  on which: \<^verbatim>\<open>LA.eig\<close> returns real arrays when every eigenvalue has imaginary part
  zero, and \<^verbatim>\<open>np.log\<close> of a real array is the real logarithm.
\<close>

datatype vec = RVec "fval list" | CVec "cval list"

datatype mat = RMat "fval list list" | CMat "cval list list"

fun vlen :: "vec \<Rightarrow> nat" where
  "vlen (RVec xs) = length xs"
| "vlen (CVec zs) = length zs"

definition ncols :: "'a list list \<Rightarrow> nat" where
  "ncols A = (case A of [] \<Rightarrow> 0 | r # _ \<Rightarrow> length r)"

definition square :: "nat \<Rightarrow> 'a list list \<Rightarrow> bool" where
  "square n A = (length A = n \<and> list_all (\<lambda>r. length r = n) A)"

fun msquare :: "nat \<Rightarrow> mat \<Rightarrow> bool" where
  "msquare n (RMat A) = square n A"
| "msquare n (CMat A) = square n A"

fun to_cmat :: "mat \<Rightarrow> cval list list" where
  "to_cmat (RMat A) = map (map of_fval) A"
| "to_cmat (CMat A) = A"

text \<open>\<^verbatim>\<open>np.transpose\<close> of a two-dimensional array.\<close>

definition np_transpose :: "'a list list \<Rightarrow> 'a list list" where
  "np_transpose A = map (\<lambda>j. map (\<lambda>r. r ! j) A) [0..<ncols A]"

fun mtranspose :: "mat \<Rightarrow> mat" where
  "mtranspose (RMat A) = RMat (np_transpose A)"
| "mtranspose (CMat A) = CMat (np_transpose A)"

text \<open>
  The matrix product \<^verbatim>\<open>np.dot\<close>. The result is real when both factors are, and
  complex otherwise (a real factor is then cast). The code applies it to arrays whose
  inner dimensions agree.
\<close>

definition gdot :: "('a \<Rightarrow> 'a \<Rightarrow> 'a) \<Rightarrow> ('a \<Rightarrow> 'a \<Rightarrow> 'a) \<Rightarrow> 'a \<Rightarrow> 'a list list \<Rightarrow> 'a list list \<Rightarrow> 'a list list" where
  "gdot add mul zero A B =
     map (\<lambda>r. map (\<lambda>j. foldr add (map (\<lambda>k. mul (r ! k) (B ! k ! j)) [0..<length B]) zero)
                 [0..<ncols B]) A"

definition rdot :: "fval list list \<Rightarrow> fval list list \<Rightarrow> fval list list" where
  "rdot = gdot fadd fmul (Fin 0)"

definition cdot :: "cval list list \<Rightarrow> cval list list \<Rightarrow> cval list list" where
  "cdot = gdot cadd cmul czero"

fun dot :: "mat \<Rightarrow> mat \<Rightarrow> mat" where
  "dot (RMat A) (RMat B) = RMat (rdot A B)"
| "dot A B = CMat (cdot (to_cmat A) (to_cmat B))"

text \<open>The elementwise sum and the negation of arrays of one shape.\<close>

definition map2_mat :: "('a \<Rightarrow> 'a \<Rightarrow> 'a) \<Rightarrow> 'a list list \<Rightarrow> 'a list list \<Rightarrow> 'a list list" where
  "map2_mat f A B = map (\<lambda>(r, s). map (\<lambda>(x, y). f x y) (zip r s)) (zip A B)"

fun madd :: "mat \<Rightarrow> mat \<Rightarrow> mat" where
  "madd (RMat A) (RMat B) = RMat (map2_mat fadd A B)"
| "madd A B = CMat (map2_mat cadd (to_cmat A) (to_cmat B))"

fun mneg :: "mat \<Rightarrow> mat" where
  "mneg (RMat A) = RMat (map (map fneg) A)"
| "mneg (CMat A) = CMat (map (map cneg) A)"

text \<open>Indexing with an array of indices: \<^verbatim>\<open>g[iSort]\<close> and \<^verbatim>\<open>u[:, iSort]\<close>.\<close>

definition take_idx :: "'a list \<Rightarrow> nat list \<Rightarrow> 'a list" where
  "take_idx xs is = map (\<lambda>i. xs ! i) is"

fun vtake :: "vec \<Rightarrow> nat list \<Rightarrow> vec" where
  "vtake (RVec xs) is = RVec (take_idx xs is)"
| "vtake (CVec zs) is = CVec (take_idx zs is)"

fun take_cols :: "mat \<Rightarrow> nat list \<Rightarrow> mat" where
  "take_cols (RMat A) is = RMat (map (\<lambda>r. take_idx r is) A)"
| "take_cols (CMat A) is = CMat (map (\<lambda>r. take_idx r is) A)"

text \<open>The attributes \<^verbatim>\<open>.real\<close> and \<^verbatim>\<open>.imag\<close> of a one-dimensional array.\<close>

fun vreal :: "vec \<Rightarrow> fval list" where
  "vreal (RVec xs) = xs"
| "vreal (CVec zs) = map re_part zs"

fun vimag :: "vec \<Rightarrow> fval list" where
  "vimag (RVec xs) = map (\<lambda>_. Fin 0) xs"
| "vimag (CVec zs) = map im_part zs"

section \<open>Logarithm and sorting\<close>

text \<open>
  \<^verbatim>\<open>np.log\<close> of a real array: the logarithm of a negative number is NaN, that of zero
  is \<open>-inf\<close>; neither raises.
\<close>

fun rlog :: "fval \<Rightarrow> fval" where
  "rlog (Fin a) = (if 0 < a then Fin (ln a) else if a = 0 then NInf else NaN)"
| "rlog PInf = PInf"
| "rlog NInf = NaN"
| "rlog NaN = NaN"

text \<open>
  \<^verbatim>\<open>np.log\<close> of a complex array is the principal logarithm: the real logarithm of
  the modulus, and the argument in \<open>(-\<pi>, \<pi>]\<close>, with the values of the C library
  at infinities and NaN.
\<close>

fun fhypot :: "fval \<Rightarrow> fval \<Rightarrow> fval" where
  "fhypot (Fin a) (Fin b) = Fin (sqrt (a * a + b * b))"
| "fhypot PInf _ = PInf"
| "fhypot NInf _ = PInf"
| "fhypot _ PInf = PInf"
| "fhypot _ NInf = PInf"
| "fhypot _ _ = NaN"

fun fatan2 :: "fval \<Rightarrow> fval \<Rightarrow> fval" where
  "fatan2 (Fin y) (Fin x) = Fin (Arg (Complex x y))"
| "fatan2 (Fin y) PInf = Fin 0"
| "fatan2 (Fin y) NInf = Fin (if y < 0 then - pi else pi)"
| "fatan2 PInf (Fin x) = Fin (pi / 2)"
| "fatan2 NInf (Fin x) = Fin (- pi / 2)"
| "fatan2 PInf PInf = Fin (pi / 4)"
| "fatan2 PInf NInf = Fin (3 * pi / 4)"
| "fatan2 NInf PInf = Fin (- pi / 4)"
| "fatan2 NInf NInf = Fin (- 3 * pi / 4)"
| "fatan2 NaN _ = NaN"
| "fatan2 _ NaN = NaN"

fun clog :: "cval \<Rightarrow> cval" where
  "clog (Cx a b) = Cx (rlog (fhypot a b)) (fatan2 b a)"

fun np_log :: "vec \<Rightarrow> vec" where
  "np_log (RVec xs) = RVec (map rlog xs)"
| "np_log (CVec zs) = CVec (map clog zs)"

text \<open>\<^verbatim>\<open>b_tau/lag\<close>, by the integer \<open>lag\<close>.\<close>

fun vdiv_int :: "vec \<Rightarrow> int \<Rightarrow> vec" where
  "vdiv_int (RVec xs) l = RVec (map (\<lambda>x. fdiv x (Fin (real_of_int l))) xs)"
| "vdiv_int (CVec zs) l = CVec (map (\<lambda>z. cdiv_int z l) zs)"

text \<open>
  The order in which NumPy sorts: the comparison \<open><\<close> of doubles, with NaN after
  everything else; complex values by real part, then by imaginary part.
\<close>

fun fless :: "fval \<Rightarrow> fval \<Rightarrow> bool" where
  "fless (Fin a) (Fin b) = (a < b)"
| "fless (Fin a) PInf = True"
| "fless NInf (Fin b) = True"
| "fless NInf PInf = True"
| "fless _ _ = False"

definition sort_lt :: "fval \<Rightarrow> fval \<Rightarrow> bool" where
  "sort_lt a b = (fless a b \<or> (isnan b \<and> \<not> isnan a))"

fun csort_lt :: "cval \<Rightarrow> cval \<Rightarrow> bool" where
  "csort_lt (Cx ar ai) (Cx br bi) =
     (if fless ar br then \<not> isnan ai \<or> isnan bi
      else if fless br ar then isnan bi \<and> \<not> isnan ai
      else if (\<not> isnan ar \<and> ar = br) \<or> (isnan ar \<and> isnan br)
        then fless ai bi \<or> (isnan bi \<and> \<not> isnan ai)
      else isnan br)"

text \<open>
  \<^verbatim>\<open>argsort\<close>: the indices in increasing order of their values. Equal values are
  left in index order; \<^verbatim>\<open>[::-1]\<close> reverses the result.
\<close>

fun insort_by :: "('a \<Rightarrow> 'a \<Rightarrow> bool) \<Rightarrow> 'a \<Rightarrow> 'a list \<Rightarrow> 'a list" where
  "insort_by lt x [] = [x]"
| "insort_by lt x (y # ys) = (if lt y x then y # insort_by lt x ys else x # y # ys)"

definition sort_by :: "('a \<Rightarrow> 'a \<Rightarrow> bool) \<Rightarrow> 'a list \<Rightarrow> 'a list" where
  "sort_by lt xs = foldr (insort_by lt) xs []"

fun argsort :: "vec \<Rightarrow> nat list" where
  "argsort (RVec xs) = sort_by (\<lambda>i j. sort_lt (xs ! i) (xs ! j)) [0..<length xs]"
| "argsort (CVec zs) = sort_by (\<lambda>i j. csort_lt (zs ! i) (zs ! j)) [0..<length zs]"

section \<open>Steps 2 and 3: the Green function, its modes, and L and Q\<close>

text \<open>
  \<^verbatim>\<open>LA.inv\<close> and \<^verbatim>\<open>LA.eig\<close> belong to \<^verbatim>\<open>numpy.linalg\<close>, not to this repository:
  they are parameters of the model. Each returns an error or its arrays; they are taken
  to return arrays of the documented shapes (for an \<open>n \<times> n\<close> argument, an \<open>n \<times> n\<close>
  inverse; \<open>n\<close> eigenvalues and an \<open>n \<times> n\<close> array of eigenvectors, both of one type).
\<close>

record linalg =
  la_inv :: "mat \<Rightarrow> error + mat"
  la_eig :: "mat \<Rightarrow> error + vec \<times> mat"

fun same_type :: "vec \<Rightarrow> mat \<Rightarrow> bool" where
  "same_type (RVec _) (RMat _) = True"
| "same_type (CVec _) (CMat _) = True"
| "same_type _ _ = False"

definition lib_shapes :: "linalg \<Rightarrow> bool" where
  "lib_shapes lib =
     ((\<forall>A B n. msquare n A \<and> la_inv lib A = Inr B \<longrightarrow> msquare n B) \<and>
      (\<forall>A w V n. msquare n A \<and> la_eig lib A = Inr (w, V)
          \<longrightarrow> vlen w = n \<and> msquare n V \<and> same_type w V))"

text \<open>\<^verbatim>\<open>beta = np.zeros((nDat, nDat), complex); np.fill_diagonal(beta, b_alpha)\<close>\<close>

fun to_cvec :: "vec \<Rightarrow> cval list" where
  "to_cvec (RVec xs) = map of_fval xs"
| "to_cvec (CVec zs) = zs"

definition diag_beta :: "nat \<Rightarrow> vec \<Rightarrow> mat" where
  "diag_beta n b =
     CMat (map (\<lambda>i. map (\<lambda>j. if i = j then to_cvec b ! (i mod vlen b) else czero) [0..<n]) [0..<n])"

type_synonym lim_result =
  "vec \<times> mat \<times> mat \<times> mat \<times> rmatrix \<times> rmatrix \<times> mat \<times> mat \<times> vec \<times> fval list \<times> fval list"

text \<open>The function \<^verbatim>\<open>LIM\<close> (the name \<open>LIM\<close> is taken by the syntax of limits).\<close>

definition LIM_fun :: "linalg \<Rightarrow> rmatrix \<Rightarrow> int \<Rightarrow> error + lim_result" where
  "LIM_fun lib xDat lag =
     (case covariances xDat lag of
        Inl e \<Rightarrow> Inl e
      | Inr (c0, cT) \<Rightarrow>
     (case la_inv lib (RMat c0) of
        Inl e \<Rightarrow> Inl e
      | Inr c0_inv \<Rightarrow>
     (let G = dot (RMat cT) c0_inv in
      case la_eig lib G of
        Inl e \<Rightarrow> Inl e
      | Inr (g0, u0) \<Rightarrow>
     (let iSort = rev (argsort g0);
          g1 = vtake g0 iSort;
          u1 = take_cols u0 iSort in
      case la_eig lib (mtranspose G) of
        Inl e \<Rightarrow> Inl e
      | Inr (eigVal_T, v0) \<Rightarrow>
     (let iSortT = rev (argsort eigVal_T);
          v1 = take_cols v0 iSortT;
          b_tau = np_log g1;
          b_alpha1 = vdiv_int b_tau lag;
          sortVal = map (fdiv (Fin (- 1))) (vreal b_alpha1);
          iSort2 = rev (argsort (RVec sortVal));
          u = take_cols u1 iSort2;
          v = take_cols v1 iSort2;
          g = vtake g1 iSort2;
          b_alpha = vtake b_alpha1 iSort2;
          beta = diag_beta (nDat_of xDat) b_alpha;
          normFactors = dot (mtranspose u) v in
      case la_inv lib normFactors of
        Inl e \<Rightarrow> Inl e
      | Inr nf_inv \<Rightarrow>
     (let normU = dot u nf_inv;
          L = dot normU (dot beta (mtranspose v));
          Q_negative = madd (dot L (RMat c0)) (dot (RMat c0) (mtranspose L));
          Q = mneg Q_negative;
          periods = map (fdiv (Fin (2 * pi))) (vimag b_alpha);
          decayT = map (fdiv (Fin (- 1))) (vreal b_alpha)
      in Inr (b_alpha, L, Q, G, c0, cT, normU, v, g, periods, decayT)))))))"

text \<open>
  What \<^verbatim>\<open>numpy.linalg\<close> does on a real \<open>1 \<times> 1\<close> array \<open>[[a]]\<close>: the inverse is
  \<open>[[1/a]]\<close>, and \<open>Singular matrix\<close> is raised when \<open>a\<close> is zero; the eigenvalue is \<open>a\<close>
  with eigenvector \<open>[1.]\<close>, both real, and an array with an infinity or a NaN is
  refused. Arrays of other shapes are outside this instance.
\<close>

fun inv_1x1 :: "mat \<Rightarrow> error + mat" where
  "inv_1x1 (RMat [[a]]) = (if a = Fin 0 then Inl SingularMatrix else Inr (RMat [[fdiv (Fin 1) a]]))"
| "inv_1x1 _ = Inl LinAlgOther"

fun eig_1x1 :: "mat \<Rightarrow> error + vec \<times> mat" where
  "eig_1x1 (RMat [[Fin a]]) = Inr (RVec [Fin a], RMat [[Fin 1]])"
| "eig_1x1 _ = Inl LinAlgOther"

definition numpy_1x1 :: linalg where
  "numpy_1x1 = \<lparr> la_inv = inv_1x1, la_eig = eig_1x1 \<rparr>"

text \<open>Finite values and arrays, and the complex zero matrix.\<close>

definition cfinite :: "cval \<Rightarrow> bool" where
  "cfinite z = (isfinite (re_part z) \<and> isfinite (im_part z))"

fun mfinite :: "mat \<Rightarrow> bool" where
  "mfinite (RMat A) = list_all (list_all isfinite) A"
| "mfinite (CMat A) = list_all (list_all cfinite) A"

definition czeros :: "nat \<Rightarrow> mat" where
  "czeros n = CMat (replicate n (replicate n czero))"




text \<open>
  The complex number of a finite complex value and the finite complex value of a complex
  number, the complex identity matrix, and the arrays of finite complex values.
\<close>

fun cx :: "cval \<Rightarrow> complex" where
  "cx (Cx a b) = Complex (val a) (val b)"

definition cident :: "nat \<Rightarrow> cval list list" where
  "cident n = map (\<lambda>i. map (\<lambda>j. if i = j then Cx (Fin 1) (Fin 0) else czero) [0..<n]) [0..<n]"

definition cfin :: "cval list list \<Rightarrow> bool" where
  "cfin A = list_all (list_all cfinite) A"

definition of_cx :: "complex \<Rightarrow> cval" where
  "of_cx z = Cx (Fin (Re z)) (Fin (Im z))"

text \<open>
  A second instance of the library, in exact arithmetic: the inverse of a finite real
  or complex \<open>2 \<times> 2\<close> array, \<open>Singular matrix\<close> when its determinant is zero (as
  LAPACK reports a zero pivot); and the eigenvalues
  and eigenvectors of a \<open>2 \<times> 2\<close> Jordan block (upper or lower), whose one eigenvector
  direction is returned for both eigenvalues.
\<close>

fun inv_2x2 :: "mat \<Rightarrow> error + mat" where
  "inv_2x2 (RMat [[Fin a, Fin b], [Fin c, Fin d]]) =
     (if a * d - b * c = 0 then Inl SingularMatrix
      else Inr (RMat [[Fin (d / (a * d - b * c)), Fin (- b / (a * d - b * c))],
                      [Fin (- c / (a * d - b * c)), Fin (a / (a * d - b * c))]]))"
| "inv_2x2 (CMat [[a, b], [c, d]]) =
     (if cfinite a \<and> cfinite b \<and> cfinite c \<and> cfinite d
      then (let det = cx a * cx d - cx b * cx c
            in if det = 0 then Inl SingularMatrix
               else Inr (CMat [[of_cx (cx d / det), of_cx (- cx b / det)],
                               [of_cx (- cx c / det), of_cx (cx a / det)]]))
      else Inl LinAlgOther)"
| "inv_2x2 _ = Inl LinAlgOther"



text \<open>
  A third instance of the library, in exact arithmetic, for real triangular \<open>2 \<times> 2\<close>
  arrays with two different diagonal entries, following what LAPACK's \<^verbatim>\<open>dgeev\<close> does
  behind \<^verbatim>\<open>LA.eig\<close>. An upper triangular array is left as it is: the eigenvalues are
  the diagonal entries in their order, the eigenvectors come from back-substitution
  with last component one, and each is scaled to Euclidean norm one. A lower triangular
  array is first made upper triangular by exchanging the two rows and columns (the
  balancing step), so its eigenvalues come out in the other order, and the exchange is
  undone on the eigenvectors. All arrays are real. The inverse is that of \<open>inv_2x2\<close>.
\<close>

fun eig_triangular :: "mat \<Rightarrow> error + vec \<times> mat" where
  "eig_triangular (RMat [[Fin a, Fin b], [Fin c, Fin d]]) =
     (if c = 0 \<and> a \<noteq> d
        then (let t = b / (d - a); n = sqrt (t * t + 1)
              in Inr (RVec [Fin a, Fin d], RMat [[Fin 1, Fin (t / n)], [Fin 0, Fin (1 / n)]]))
      else if b = 0 \<and> a \<noteq> d
        then (let t = c / (a - d); n = sqrt (t * t + 1)
              in Inr (RVec [Fin d, Fin a], RMat [[Fin 0, Fin (1 / n)], [Fin 1, Fin (t / n)]]))
      else Inl LinAlgOther)"
| "eig_triangular _ = Inl LinAlgOther"

definition solver_triangular :: linalg where
  "solver_triangular = \<lparr> la_inv = inv_2x2, la_eig = eig_triangular \<rparr>"

text \<open>
  An input of two variables and four times, with one missing value. For lag 1 its Green
  function is \<open>[[3/2, 0], [-9/16, 3/4]]\<close>: one growing and one decaying mode.
\<close>

definition X_two :: rmatrix where
  "X_two = [[Fin 2, Fin 2, NaN, Fin 0], [Fin 1, Fin 0, Fin (- 1), Fin 0]]"

text \<open>The column \<^verbatim>\<open>u[:, k]\<close> of a matrix, and the entry \<^verbatim>\<open>g[k]\<close> of a vector as a complex value.\<close>

fun mcol :: "mat \<Rightarrow> nat \<Rightarrow> vec" where
  "mcol (RMat A) k = RVec (map (\<lambda>r. r ! k) A)"
| "mcol (CMat A) k = CVec (map (\<lambda>r. r ! k) A)"

fun vnth :: "vec \<Rightarrow> nat \<Rightarrow> cval" where
  "vnth (RVec xs) k = of_fval (xs ! k)"
| "vnth (CVec zs) k = zs ! k"

text \<open>
  A finite \<open>n \<times> n\<close> array is invertible when it has an inverse with finite entries, in
  exact arithmetic. \<^verbatim>\<open>LA.inv\<close> is documented to raise \<open>Singular matrix\<close> when its
  argument has no inverse; \<open>rejects_singular\<close> is this part of the contract, for
  \<open>n \<times> n\<close> arguments with finite entries.
\<close>

definition invertible :: "nat \<Rightarrow> mat \<Rightarrow> bool" where
  "invertible n A = (\<exists>B. square n B \<and> cfin B \<and> cdot (to_cmat A) B = cident n)"

definition rejects_singular :: "linalg \<Rightarrow> nat \<Rightarrow> bool" where
  "rejects_singular lib n =
     (\<forall>A. msquare n A \<and> mfinite A \<and> \<not> invertible n A \<longrightarrow> la_inv lib A = Inl SingularMatrix)"

lemma traverse_Inr:
  "(\<And>x. x \<in> set xs \<Longrightarrow> f x = Inr (g x)) \<Longrightarrow> traverse f xs = Inr (map g xs)"
  by (induction xs) simp_all

lemma traverse_Inl_hd:
  "f x = Inl e \<Longrightarrow> traverse f (x # xs) = Inl e"
  by simp

lemma get_col_src:
  assumes "- int (nT_of X) \<le> int iT + lag" "int iT + lag < int (nT_of X)"
  shows "get_col X (int iT + lag) = Inr (map (\<lambda>r. r ! src_col X lag iT) X)"
  using assms by (simp add: get_col_def src_col_def Let_def)

lemma fill_lagged_fold:
  assumes "\<And>iT. iT \<in> set its \<Longrightarrow> get_col X (int iT + lag) = Inr (c iT)"
  shows "fill_lagged X lag its xl = Inr (fold (\<lambda>iT M. set_col M iT (c iT)) its xl)"
  using assms by (induction its arbitrary: xl) simp_all

lemma set_col_map:
  "set_col (map f X) iT (map g X) = map (\<lambda>r. (f r)[iT := g r]) X"
  by (simp add: set_col_def zip_map_map map_zip_map zip_same_conv_map)

lemma fold_set_col:
  assumes "k \<le> w"
  shows "fold (\<lambda>iT M. set_col M iT (map (\<lambda>r. r ! s iT) X)) [0..<k] (replicate (length X) (replicate w NaN))
       = map (\<lambda>r. map (\<lambda>t. r ! s t) [0..<k] @ replicate (w - k) NaN) X"
  using assms
proof (induction k)
  case 0
  show ?case by (simp add: map_replicate_const)
next
  case (Suc k)
  then have k: "k < w" by simp
  have upd: "(map (\<lambda>t. r ! s t) [0..<k] @ replicate (w - k) NaN)[k := r ! s k]
        = map (\<lambda>t. r ! s t) [0..<Suc k] @ replicate (w - Suc k) NaN" for r :: "fval list"
  proof -
    have "replicate (w - k) NaN = NaN # replicate (w - Suc k) NaN"
      using k by (simp add: Suc_diff_Suc flip: replicate_Suc)
    then show ?thesis by (simp add: list_update_append)
  qed
  have "fold (\<lambda>iT M. set_col M iT (map (\<lambda>r. r ! s iT) X)) [0..<Suc k] (replicate (length X) (replicate w NaN))
      = set_col (map (\<lambda>r. map (\<lambda>t. r ! s t) [0..<k] @ replicate (w - k) NaN) X) k (map (\<lambda>r. r ! s k) X)"
    using Suc.IH k by simp
  also have "\<dots> = map (\<lambda>r. map (\<lambda>t. r ! s t) [0..<Suc k] @ replicate (w - Suc k) NaN) X"
    unfolding set_col_map upd ..
  finally show ?case .
qed

lemma xLagged_of_closed:
  assumes "- int (nT_of X) \<le> lag" "lag \<le> int (nT_of X)"
  shows "xLagged_of X lag =
    Inr (map (\<lambda>r. map (\<lambda>t. r ! src_col X lag t) [0..<nat (int (nT_of X) - lag)]) X)"
proof -
  let ?w = "nat (int (nT_of X) - lag)"
  have cols: "get_col X (int iT + lag) = Inr (map (\<lambda>r. r ! src_col X lag iT) X)"
    if "iT \<in> set [0..<?w]" for iT
    using that assms by (intro get_col_src) auto
  have "xLagged_of X lag = fill_lagged X lag [0..<?w] (replicate (length X) (replicate ?w NaN))"
    using assms by (simp add: xLagged_of_def nDat_of_def Let_def)
  also have "\<dots> = Inr (fold (\<lambda>iT M. set_col M iT (map (\<lambda>r. r ! src_col X lag iT) X)) [0..<?w]
      (replicate (length X) (replicate ?w NaN)))"
    using cols by (rule fill_lagged_fold)
  also have "\<dots> = Inr (map (\<lambda>r. map (\<lambda>t. r ! src_col X lag t) [0..<?w]) X)"
    by (simp add: fold_set_col)
  finally show ?thesis .
qed

lemma rectangular_nth: "rectangular X \<Longrightarrow> i < length X \<Longrightarrow> length (X ! i) = nT_of X"
  by (simp add: rectangular_def list_all_length)

lemma rectangular_mem: "rectangular X \<Longrightarrow> r \<in> set X \<Longrightarrow> length r = nT_of X"
  by (simp add: rectangular_def list_all_iff)

lemma drop_as_map: "map (\<lambda>t. r ! (t + k)) [0..<length r - k] = drop k r"
  by (rule nth_equalityI) (simp_all add: add.commute)

lemma xLagged_of_drop:
  assumes "rectangular X" "0 \<le> lag" "lag \<le> int (nT_of X)"
  shows "xLagged_of X lag = Inr (map (drop (nat lag)) X)"
proof -
  have src: "src_col X lag t = t + nat lag" for t
    using assms(2) by (simp add: src_col_def nat_add_distrib)
  have "map (\<lambda>t. r ! src_col X lag t) [0..<nat (int (nT_of X) - lag)] = drop (nat lag) r"
    if "r \<in> set X" for r
  proof -
    have "nat (int (nT_of X) - lag) = length r - nat lag"
      using rectangular_mem[OF assms(1) that] assms(2) by (simp add: nat_diff_distrib')
    then show ?thesis by (simp add: src drop_as_map)
  qed
  then show ?thesis
    using assms by (simp add: xLagged_of_closed)
qed

lemma nansum_Cons: "nansum (x # xs) = fadd (nan_to_zero x) (nansum xs)"
  by (simp add: nansum_def)

lemma nansum_Nil: "nansum [] = Fin 0"
  by (simp add: nansum_def)

lemma nansum_products:
  assumes "list_all (\<lambda>(x, y). real_or_missing x \<and> real_or_missing y) ps"
  shows "nansum (map (\<lambda>(x, y). fmul x y) ps)
       = Fin (\<Sum>(x, y)\<leftarrow>filter (\<lambda>(x, y). isfinite x \<and> isfinite y) ps. val x * val y)"
  using assms
proof (induction ps)
  case Nil
  show ?case by (simp add: nansum_Nil)
next
  case (Cons p ps)
  obtain x y where p: "p = (x, y)" by (cases p)
  have v: "real_or_missing x" "real_or_missing y" using Cons.prems p by simp_all
  have IH: "nansum (map (\<lambda>(x, y). fmul x y) ps)
       = Fin (\<Sum>(x, y)\<leftarrow>filter (\<lambda>(x, y). isfinite x \<and> isfinite y) ps. val x * val y)"
    using Cons.IH Cons.prems by simp
  show ?case
    using v by (cases x; cases y) (simp_all add: p nansum_Cons IH nan_to_zero_def real_or_missing_def)
qed

lemma count_finite_products:
  assumes "list_all (\<lambda>(x, y). real_or_missing x \<and> real_or_missing y) ps"
  shows "count_finite (map (\<lambda>(x, y). fmul x y) ps)
       = length (filter (\<lambda>(x, y). isfinite x \<and> isfinite y) ps)"
  using assms
proof (induction ps)
  case Nil
  show ?case by (simp add: count_finite_def)
next
  case (Cons p ps)
  obtain x y where p: "p = (x, y)" by (cases p)
  have v: "real_or_missing x" "real_or_missing y" using Cons.prems p by simp_all
  have IH: "count_finite (map (\<lambda>(x, y). fmul x y) ps)
       = length (filter (\<lambda>(x, y). isfinite x \<and> isfinite y) ps)"
    using Cons.IH Cons.prems by simp
  show ?case
    using v IH by (cases x; cases y) (simp_all add: p count_finite_def real_or_missing_def)
qed

lemma zip_as_map:
  assumes "length a = n" "length b = n"
  shows "zip a b = map (\<lambda>t. (a ! t, b ! t)) [0..<n]"
  using assms by (intro nth_equalityI) simp_all

lemma moment_spec:
  assumes "length a = n" "length b = n" "list_all real_or_missing a" "list_all real_or_missing b"
  shows "moment a b = Inr (spec_moment (\<lambda>t. a ! t) (\<lambda>t. b ! t) n)"
proof -
  have ok: "list_all (\<lambda>(x, y). real_or_missing x \<and> real_or_missing y) (zip a b)"
    using assms(3,4) by (auto simp: list_all_iff dest: set_zip_leftD set_zip_rightD)
  have z: "zip a b = map (\<lambda>t. (a ! t, b ! t)) [0..<n]"
    using assms(1,2) by (rule zip_as_map)
  have f: "filter (\<lambda>(x, y). isfinite x \<and> isfinite y) (zip a b)
      = map (\<lambda>t. (a ! t, b ! t)) (filter (\<lambda>t. isfinite (a ! t) \<and> isfinite (b ! t)) [0..<n])"
    by (simp add: z filter_map comp_def)
  have "bmul a b = Inr (map (\<lambda>(x, y). fmul x y) (zip a b))"
    using assms(1,2) by (simp add: bmul_def)
  then show ?thesis
    by (simp add: moment_def nansum_products[OF ok] count_finite_products[OF ok] f
        spec_moment_def comp_def Let_def)
qed

lemma spec_moment_cong:
  assumes "\<And>t. t < n \<Longrightarrow> a t = a' t" "\<And>t. t < n \<Longrightarrow> b t = b' t"
  shows "spec_moment a b n = spec_moment a' b' n"
proof -
  have P: "filter (\<lambda>t. isfinite (a t) \<and> isfinite (b t)) [0..<n]
         = filter (\<lambda>t. isfinite (a' t) \<and> isfinite (b' t)) [0..<n]"
    using assms by (intro filter_cong) simp_all
  have S: "map (\<lambda>t. val (a t) * val (b t)) (filter (\<lambda>t. isfinite (a' t) \<and> isfinite (b' t)) [0..<n])
         = map (\<lambda>t. val (a' t) * val (b' t)) (filter (\<lambda>t. isfinite (a' t) \<and> isfinite (b' t)) [0..<n])"
    using assms by (intro map_cong) simp_all
  show ?thesis
    by (simp only: spec_moment_def P S Let_def)
qed

lemma valid_input_row:
  "valid_input X \<Longrightarrow> i < length X \<Longrightarrow> length (X ! i) = nT_of X \<and> list_all real_or_missing (X ! i)"
  by (simp add: valid_input_def rectangular_nth list_all_length)

lemma list_all_drop: "list_all P xs \<Longrightarrow> list_all P (drop k xs)"
  by (auto simp: list_all_iff dest: in_set_dropD)

lemma list_all_take: "list_all P xs \<Longrightarrow> list_all P (take k xs)"
  by (auto simp: list_all_iff dest: in_set_takeD)

lemma cov_entry_spec:
  assumes "valid_input X" "0 < lag" "lag < int (nT_of X)" "i < length X" "j < length X"
  shows "cov_entry X (map (drop (nat lag)) X) lag i j = Inr (spec_c0 X i j, spec_cT X (nat lag) i j)"
proof -
  let ?l = "nat lag" and ?T = "nT_of X"
  have ri: "length (X ! i) = ?T" "list_all real_or_missing (X ! i)"
    and rj: "length (X ! j) = ?T" "list_all real_or_missing (X ! j)"
    using valid_input_row[OF assms(1)] assms(4,5) by simp_all
  have c0: "moment (X ! i) (X ! j) = Inr (spec_c0 X i j)"
    unfolding spec_c0_def by (rule moment_spec) (fact ri rj)+
  have sl: "slice_to (- lag) (X ! j) = take (?T - ?l) (X ! j)"
    using assms(2,3) rj(1) by (simp add: slice_to_def nat_diff_distrib')
  have "moment (drop ?l (X ! i)) (take (?T - ?l) (X ! j))
      = Inr (spec_moment (\<lambda>t. drop ?l (X ! i) ! t) (\<lambda>t. take (?T - ?l) (X ! j) ! t) (?T - ?l))"
    using ri rj by (intro moment_spec) (simp_all add: list_all_drop list_all_take)
  also have "spec_moment (\<lambda>t. drop ?l (X ! i) ! t) (\<lambda>t. take (?T - ?l) (X ! j) ! t) (?T - ?l)
      = spec_cT X ?l i j"
    unfolding spec_cT_def using ri(1) by (intro spec_moment_cong) (simp_all add: add.commute)
  finally have cT: "moment (map (drop ?l) X ! i) (slice_to (- lag) (X ! j)) = Inr (spec_cT X ?l i j)"
    using assms(4) by (simp add: sl)
  show ?thesis
    by (simp add: cov_entry_def c0 cT)
qed

lemma covariances_closed_form:
  assumes "valid_input X" "0 < lag" "lag < int (nT_of X)"
  shows "covariances X lag =
     Inr (map (\<lambda>i. map (\<lambda>j. spec_c0 X i j) [0..<nDat_of X]) [0..<nDat_of X],
          map (\<lambda>i. map (\<lambda>j. spec_cT X (nat lag) i j) [0..<nDat_of X]) [0..<nDat_of X])"
proof -
  let ?N = "nDat_of X"
  have xl: "xLagged_of X lag = Inr (map (drop (nat lag)) X)"
    using assms by (intro xLagged_of_drop) (simp_all add: valid_input_def)
  have row: "traverse (cov_entry X (map (drop (nat lag)) X) lag i) [0..<?N]
      = Inr (map (\<lambda>j. (spec_c0 X i j, spec_cT X (nat lag) i j)) [0..<?N])"
    if "i \<in> set [0..<?N]" for i
    using that assms by (intro traverse_Inr cov_entry_spec) (simp_all add: nDat_of_def)
  have "traverse (\<lambda>i. traverse (cov_entry X (map (drop (nat lag)) X) lag i) [0..<?N]) [0..<?N]
      = Inr (map (\<lambda>i. map (\<lambda>j. (spec_c0 X i j, spec_cT X (nat lag) i j)) [0..<?N]) [0..<?N])"
    using row by (rule traverse_Inr)
  then show ?thesis
    by (simp add: covariances_def xl comp_def)
qed

text \<open>
  Claim C1. For an input whose entries are real numbers or NaN markers, with rows of one
  length \<open>T\<close>, and a lag with \<open>0 < lag < T\<close>, the covariance stage returns, and entry
  \<open>(i, j)\<close> of \<open>c0\<close> is the sum of \<open>X[i,t] * X[j,t]\<close> over the positions \<open>t\<close> where both
  values are finite, divided by the number of these positions; entry \<open>(i, j)\<close> of \<open>cT\<close>
  is the same ratio for \<open>X[i,t+lag]\<close> and \<open>X[j,t]\<close>, \<open>t = 0..T-lag-1\<close>. No mean is
  subtracted: the two formulas are \<open>spec_c0\<close> and \<open>spec_cT\<close>.
\<close>

theorem covariances_pairwise_complete:
  assumes "valid_input X" "0 < lag" "lag < int (nT_of X)"
  shows "covariances X lag =
     Inr (map (\<lambda>i. map (\<lambda>j. spec_c0 X i j) [0..<nDat_of X]) [0..<nDat_of X],
          map (\<lambda>i. map (\<lambda>j. spec_cT X (nat lag) i j) [0..<nDat_of X]) [0..<nDat_of X])"
  using assms by (rule covariances_closed_form)

theorem covariances_pairwise_complete_witness:
  "valid_input [[Fin 1, NaN, Fin 3], [Fin 2, Fin 5, NaN]] \<and> (0::int) < 1
   \<and> (1::int) < int (nT_of [[Fin 1, NaN, Fin 3], [Fin 2, Fin 5, NaN]])
   \<and> covariances [[Fin 1, NaN, Fin 3], [Fin 2, Fin 5, NaN]] 1
      = Inr ([[Fin 5, Fin 2], [Fin 2, Fin (29 / 2)]], [[NaN, Fin 15], [Fin 5, Fin 10]])"
proof -
  let ?X = "[[Fin 1, NaN, Fin 3], [Fin 2, Fin 5, NaN]]"
  have v: "valid_input ?X" by code_simp
  have l: "(1::int) < int (nT_of ?X)" by code_simp
  have "covariances ?X 1 =
     Inr (map (\<lambda>i. map (\<lambda>j. spec_c0 ?X i j) [0..<nDat_of ?X]) [0..<nDat_of ?X],
          map (\<lambda>i. map (\<lambda>j. spec_cT ?X (nat 1) i j) [0..<nDat_of ?X]) [0..<nDat_of ?X])"
    using covariances_pairwise_complete[OF v _ l] by simp
  also have "\<dots> = Inr ([[Fin 5, Fin 2], [Fin 2, Fin (29 / 2)]], [[NaN, Fin 15], [Fin 5, Fin 10]])"
    by code_simp
  finally show ?thesis using v l by simp
qed

lemma LIM_fun_InrD:
  assumes "LIM_fun lib X lag = Inr (b_alpha, L, Q, G, c0, cT, normU, v, g, periods, decayT)"
  shows "\<exists>c0_inv g0 u0 eigVal_T v0 nf_inv g1 b1 p u.
     covariances X lag = Inr (c0, cT) \<and>
     la_inv lib (RMat c0) = Inr c0_inv \<and>
     G = dot (RMat cT) c0_inv \<and>
     la_eig lib G = Inr (g0, u0) \<and>
     la_eig lib (mtranspose G) = Inr (eigVal_T, v0) \<and>
     g1 = vtake g0 (rev (argsort g0)) \<and>
     b1 = vdiv_int (np_log g1) lag \<and>
     p = rev (argsort (RVec (map (fdiv (Fin (- 1))) (vreal b1)))) \<and>
     u = take_cols (take_cols u0 (rev (argsort g0))) p \<and>
     v = take_cols (take_cols v0 (rev (argsort eigVal_T))) p \<and>
     g = vtake g1 p \<and>
     b_alpha = vtake b1 p \<and>
     la_inv lib (dot (mtranspose u) v) = Inr nf_inv \<and>
     normU = dot u nf_inv \<and>
     L = dot normU (dot (diag_beta (nDat_of X) b_alpha) (mtranspose v)) \<and>
     Q = mneg (madd (dot L (RMat c0)) (dot (RMat c0) (mtranspose L))) \<and>
     periods = map (fdiv (Fin (2 * pi))) (vimag b_alpha) \<and>
     decayT = map (fdiv (Fin (- 1))) (vreal b_alpha)"
  using assms unfolding LIM_fun_def Let_def
  by (auto split: sum.splits prod.splits)

lemma traverse_InrD:
  "traverse f xs = Inr ys \<Longrightarrow> length ys = length xs \<and> (\<forall>k<length xs. f (xs ! k) = Inr (ys ! k))"
proof (induction xs arbitrary: ys)
  case Nil
  then show ?case by simp
next
  case (Cons x xs)
  then obtain y ys' where y: "f x = Inr y" and ys': "traverse f xs = Inr ys'" and ys: "ys = y # ys'"
    by (auto split: sum.splits)
  show ?case
    using Cons.IH[OF ys'] y by (auto simp: ys nth_Cons split: nat.splits)
qed

lemma fmul_commute: "fmul a b = fmul b a"
  by (cases a; cases b) (simp_all add: mult.commute)

lemma bmul_commute: "bmul a b = bmul b a"
proof -
  have "map (\<lambda>(x, y). fmul x y) (zip a b) = map (\<lambda>(x, y). fmul x y) (zip b a)"
    by (subst zip_commute) (simp add: case_prod_unfold fmul_commute)
  then show ?thesis
    by (auto simp: bmul_def fmul_commute)
qed

lemma moment_commute: "moment a b = moment b a"
  by (simp add: moment_def bmul_commute)

lemma covariances_entries:
  assumes "covariances X lag = Inr (c0, cT)"
  shows "\<exists>xl. xLagged_of X lag = Inr xl \<and> length c0 = length X \<and> length cT = length X \<and>
     (\<forall>i<length X. length (c0 ! i) = length X \<and> length (cT ! i) = length X \<and>
        (\<forall>j<length X. moment (X ! i) (X ! j) = Inr (c0 ! i ! j) \<and>
             moment (xl ! i) (slice_to (- lag) (X ! j)) = Inr (cT ! i ! j)))"
proof -
  let ?N = "length X"
  from assms obtain xl M where xl: "xLagged_of X lag = Inr xl"
    and M: "traverse (\<lambda>iR. traverse (cov_entry X xl lag iR) [0..<?N]) [0..<?N] = Inr M"
    and c0: "c0 = map (map fst) M" and cT: "cT = map (map snd) M"
    by (auto simp: covariances_def nDat_of_def split: sum.splits)
  from traverse_InrD[OF M] have lenM: "length M = ?N"
    and rows: "\<And>i. i < ?N \<Longrightarrow> traverse (cov_entry X xl lag i) [0..<?N] = Inr (M ! i)"
    by simp_all
  have ent: "length (M ! i) = ?N \<and> (\<forall>j<?N. cov_entry X xl lag i j = Inr (M ! i ! j))" if "i < ?N" for i
    using traverse_InrD[OF rows[OF that]] by simp
  have "length (c0 ! i) = ?N \<and> length (cT ! i) = ?N \<and>
        (\<forall>j<?N. moment (X ! i) (X ! j) = Inr (c0 ! i ! j) \<and>
             moment (xl ! i) (slice_to (- lag) (X ! j)) = Inr (cT ! i ! j))" if i: "i < ?N" for i
  proof (intro conjI allI impI)
    show "length (c0 ! i) = ?N" "length (cT ! i) = ?N"
      using ent[OF i] i lenM by (simp_all add: c0 cT)
  next
    fix j assume j: "j < ?N"
    from ent[OF i] j have e: "cov_entry X xl lag i j = Inr (M ! i ! j)" and l: "length (M ! i) = ?N"
      by simp_all
    from e show "moment (X ! i) (X ! j) = Inr (c0 ! i ! j)"
      using i j l lenM by (auto simp: cov_entry_def c0 split: sum.splits dest: sym)
    from e show "moment (xl ! i) (slice_to (- lag) (X ! j)) = Inr (cT ! i ! j)"
      using i j l lenM by (auto simp: cov_entry_def cT split: sum.splits dest: sym)
  qed
  then show ?thesis
    using xl lenM by (auto simp: c0 cT)
qed

lemma covariances_c0_symmetric:
  assumes "covariances X lag = Inr (c0, cT)" "i < length X" "j < length X"
  shows "c0 ! i ! j = c0 ! j ! i"
proof -
  from covariances_entries[OF assms(1)] assms(2,3)
  have "moment (X ! i) (X ! j) = Inr (c0 ! i ! j)" "moment (X ! j) (X ! i) = Inr (c0 ! j ! i)"
    by auto
  then show ?thesis
    by (simp add: moment_commute[of "X ! i" "X ! j"])
qed

subsection \<open>Shapes\<close>

lemma ncols_square: "square n A \<Longrightarrow> ncols A = n"
  by (cases A) (auto simp: square_def ncols_def)

lemma square_gdot: "length A = n \<Longrightarrow> square n B \<Longrightarrow> square n (gdot add mul z A B)"
  by (simp add: square_def gdot_def ncols_square[unfolded square_def] list_all_iff)

lemma square_transp: "square n A \<Longrightarrow> square n (np_transpose A)"
  by (simp add: np_transpose_def ncols_square) (simp add: square_def list_all_iff)

lemma square_map_map: "square n A \<Longrightarrow> square n (map (map f) A)"
  by (simp add: square_def list_all_iff)

lemma square_take_idx: "square n A \<Longrightarrow> length p = n \<Longrightarrow> square n (map (\<lambda>r. take_idx r p) A)"
  by (simp add: square_def list_all_iff take_idx_def)

lemma square_map2_mat:
  assumes "square n A" "square n B"
  shows "square n (map2_mat f A B)"
proof -
  have "length r = n \<and> length s = n" if "(r, s) \<in> set (zip A B)" for r s
    using assms set_zip_leftD[OF that] set_zip_rightD[OF that] by (simp add: square_def list_all_iff)
  then show ?thesis
    using assms by (auto simp: square_def map2_mat_def list_all_iff)
qed

lemma msquare_to_cmat: "msquare n A \<Longrightarrow> square n (to_cmat A)"
  by (cases A) (simp_all add: square_map_map)

lemma msquare_length: "msquare n A \<Longrightarrow> length (to_cmat A) = n"
  by (cases A) (simp_all add: square_def)

lemma square_length: "square n A \<Longrightarrow> length A = n"
  by (simp add: square_def)

lemma msquare_dot: "msquare n A \<Longrightarrow> msquare n B \<Longrightarrow> msquare n (dot A B)"
  by (cases A; cases B)
     (simp_all add: rdot_def cdot_def square_gdot square_map_map square_length)

lemma msquare_mtranspose: "msquare n A \<Longrightarrow> msquare n (mtranspose A)"
  by (cases A) (simp_all add: square_transp)

lemma msquare_madd: "msquare n A \<Longrightarrow> msquare n B \<Longrightarrow> msquare n (madd A B)"
  by (cases A; cases B) (simp_all add: square_map2_mat square_map_map)

lemma msquare_mneg: "msquare n A \<Longrightarrow> msquare n (mneg A)"
  by (cases A) (simp_all add: square_map_map)

lemma msquare_take_cols: "msquare n A \<Longrightarrow> length p = n \<Longrightarrow> msquare n (take_cols A p)"
  by (cases A) (simp_all add: square_take_idx)

lemma msquare_diag_beta: "msquare n (diag_beta n b)"
  by (simp add: diag_beta_def square_def list_all_iff)

lemma vlen_vtake: "vlen (vtake w p) = length p"
  by (cases w) (simp_all add: take_idx_def)

lemma vlen_np_log: "vlen (np_log w) = vlen w"
  by (cases w) simp_all

lemma vlen_vdiv_int: "vlen (vdiv_int w l) = vlen w"
  by (cases w) simp_all

lemma length_vreal: "length (vreal w) = vlen w"
  by (cases w) simp_all

lemma length_vimag: "length (vimag w) = vlen w"
  by (cases w) simp_all

subsection \<open>Sorting\<close>

lemma set_insort_by: "set (insort_by lt x xs) = insert x (set xs)"
  by (induction xs) auto

lemma length_insort_by: "length (insort_by lt x xs) = Suc (length xs)"
  by (induction xs) auto

lemma distinct_insort_by: "distinct (insort_by lt x xs) = (x \<notin> set xs \<and> distinct xs)"
  by (induction xs) (auto simp: set_insort_by)

lemma set_sort_by: "set (sort_by lt xs) = set xs"
  by (induction xs) (simp_all add: sort_by_def set_insort_by)

lemma length_sort_by: "length (sort_by lt xs) = length xs"
  by (induction xs) (simp_all add: sort_by_def length_insort_by)

lemma distinct_sort_by: "distinct (sort_by lt xs) = distinct xs"
  by (induction xs) (simp_all add: sort_by_def distinct_insort_by set_sort_by[unfolded sort_by_def])

lemma sorted_insort_by:
  assumes tr: "\<And>a b c. \<not> lt b a \<Longrightarrow> \<not> lt c b \<Longrightarrow> \<not> lt c a"
    and asym: "\<And>a b. lt a b \<Longrightarrow> \<not> lt b a"
  shows "sorted_wrt (\<lambda>a b. \<not> lt b a) xs \<Longrightarrow> sorted_wrt (\<lambda>a b. \<not> lt b a) (insort_by lt x xs)"
proof (induction xs)
  case Nil
  show ?case by simp
next
  case (Cons y ys)
  show ?case
  proof (cases "lt y x")
    case True
    then have "\<not> lt x y" by (rule asym)
    with True Cons show ?thesis by (auto simp: set_insort_by)
  next
    case False
    then have "\<forall>z\<in>set ys. \<not> lt z x" using Cons.prems tr by auto
    with False Cons.prems show ?thesis by simp
  qed
qed

lemma sorted_sort_by:
  assumes "\<And>a b c. \<not> lt b a \<Longrightarrow> \<not> lt c b \<Longrightarrow> \<not> lt c a" "\<And>a b. lt a b \<Longrightarrow> \<not> lt b a"
  shows "sorted_wrt (\<lambda>a b. \<not> lt b a) (sort_by lt xs)"
proof (induction xs)
  case Nil
  show ?case by (simp add: sort_by_def)
next
  case (Cons x xs)
  show ?case
    using sorted_insort_by[of lt "sort_by lt xs" x, OF assms Cons.IH]
    by (simp add: sort_by_def)
qed

lemma sort_lt_asym: "sort_lt a b \<Longrightarrow> \<not> sort_lt b a"
  by (cases a; cases b) (auto simp: sort_lt_def)

lemma sort_lt_trans: "\<not> sort_lt b a \<Longrightarrow> \<not> sort_lt c b \<Longrightarrow> \<not> sort_lt c a"
  by (cases a; cases b; cases c) (simp_all add: sort_lt_def)

lemma argsort_perm: "set (argsort w) = {..<vlen w} \<and> distinct (argsort w) \<and> length (argsort w) = vlen w"
  by (cases w) (auto simp: set_sort_by distinct_sort_by length_sort_by)

lemma argsort_sorted:
  "sorted_wrt (\<lambda>i j. \<not> sort_lt (xs ! j) (xs ! i)) (argsort (RVec xs))"
proof -
  have "sorted_wrt (\<lambda>i j. \<not> sort_lt (xs ! j) (xs ! i))
      (sort_by (\<lambda>i j. sort_lt (xs ! i) (xs ! j)) [0..<length xs])"
  proof (rule sorted_sort_by)
    show "\<not> sort_lt (xs ! c) (xs ! a)" if "\<not> sort_lt (xs ! b) (xs ! a)" "\<not> sort_lt (xs ! c) (xs ! b)"
      for a b c using that by (rule sort_lt_trans)
    show "\<not> sort_lt (xs ! b) (xs ! a)" if "sort_lt (xs ! a) (xs ! b)" for a b
      using that by (rule sort_lt_asym)
  qed
  then show ?thesis by simp
qed

lemma lib_shapes_inv: "lib_shapes lib \<Longrightarrow> msquare n A \<Longrightarrow> la_inv lib A = Inr B \<Longrightarrow> msquare n B"
  unfolding lib_shapes_def by blast

lemma lib_shapes_eig:
  "lib_shapes lib \<Longrightarrow> msquare n A \<Longrightarrow> la_eig lib A = Inr (w, V)
     \<Longrightarrow> vlen w = n \<and> msquare n V \<and> same_type w V"
  unfolding lib_shapes_def by blast

lemma covariances_square:
  assumes "covariances X lag = Inr (c0, cT)"
  shows "square (nDat_of X) c0 \<and> square (nDat_of X) cT"
  using covariances_entries[OF assms]
  by (auto simp: square_def nDat_of_def list_all_length)

lemma length_argsort: "length (argsort w) = vlen w"
  by (simp add: argsort_perm)

lemma LIM_fun_shapes:
  assumes R: "LIM_fun lib X lag = Inr (b_alpha, L, Q, G, c0, cT, normU, v, g, periods, decayT)"
    and lib: "lib_shapes lib"
  shows "vlen b_alpha = nDat_of X" "msquare (nDat_of X) L" "msquare (nDat_of X) Q"
    "msquare (nDat_of X) G" "square (nDat_of X) c0" "square (nDat_of X) cT"
    "msquare (nDat_of X) normU" "msquare (nDat_of X) v" "vlen g = nDat_of X"
    "length periods = nDat_of X" "length decayT = nDat_of X"
proof -
  let ?N = "nDat_of X"
  from LIM_fun_InrD[OF R] obtain c0_inv g0 u0 eigVal_T v0 nf_inv g1 b1 p u where
    cov: "covariances X lag = Inr (c0, cT)" and
    inv0: "la_inv lib (RMat c0) = Inr c0_inv" and
    G: "G = dot (RMat cT) c0_inv" and
    eig: "la_eig lib G = Inr (g0, u0)" and
    eigT: "la_eig lib (mtranspose G) = Inr (eigVal_T, v0)" and
    g1: "g1 = vtake g0 (rev (argsort g0))" and
    b1: "b1 = vdiv_int (np_log g1) lag" and
    p: "p = rev (argsort (RVec (map (fdiv (Fin (- 1))) (vreal b1))))" and
    u: "u = take_cols (take_cols u0 (rev (argsort g0))) p" and
    v: "v = take_cols (take_cols v0 (rev (argsort eigVal_T))) p" and
    g: "g = vtake g1 p" and
    b_alpha: "b_alpha = vtake b1 p" and
    inv1: "la_inv lib (dot (mtranspose u) v) = Inr nf_inv" and
    normU: "normU = dot u nf_inv" and
    L: "L = dot normU (dot (diag_beta (nDat_of X) b_alpha) (mtranspose v))" and
    Q: "Q = mneg (madd (dot L (RMat c0)) (dot (RMat c0) (mtranspose L)))" and
    periods: "periods = map (fdiv (Fin (2 * pi))) (vimag b_alpha)" and
    decayT: "decayT = map (fdiv (Fin (- 1))) (vreal b_alpha)"
    by blast
  from covariances_square[OF cov] show c0s: "square ?N c0" and cTs: "square ?N cT" by simp_all
  have c0i: "msquare ?N c0_inv" using lib_shapes_inv[OF lib _ inv0] c0s by simp
  show Gs: "msquare ?N G" unfolding G using cTs c0i by (intro msquare_dot) simp_all
  from lib_shapes_eig[OF lib Gs eig] have g0: "vlen g0 = ?N" and u0: "msquare ?N u0" by simp_all
  from lib_shapes_eig[OF lib msquare_mtranspose[OF Gs] eigT]
  have eT: "vlen eigVal_T = ?N" and v0: "msquare ?N v0" by simp_all
  have g1l: "vlen g1 = ?N" by (simp add: g1 vlen_vtake length_argsort g0)
  have b1l: "vlen b1 = ?N" by (simp add: b1 vlen_vdiv_int vlen_np_log g1l)
  have pl: "length p = ?N" by (simp add: p length_sort_by length_vreal b1l)
  show "vlen g = ?N" by (simp add: g vlen_vtake pl)
  show bl: "vlen b_alpha = ?N" by (simp add: b_alpha vlen_vtake pl)
  have us: "msquare ?N u" unfolding u
    by (intro msquare_take_cols u0) (simp_all add: length_argsort g0 pl)
  show vs: "msquare ?N v" unfolding v
    by (intro msquare_take_cols v0) (simp_all add: length_argsort eT pl)
  have "msquare ?N (dot (mtranspose u) v)"
    by (intro msquare_dot msquare_mtranspose us vs)
  from lib_shapes_inv[OF lib this inv1] have nfi: "msquare ?N nf_inv" .
  show ns: "msquare ?N normU" unfolding normU by (intro msquare_dot us nfi)
  show Ls: "msquare ?N L" unfolding L
    by (intro msquare_dot ns msquare_diag_beta msquare_mtranspose vs)
  show "msquare ?N Q" unfolding Q
    using c0s by (intro msquare_mneg msquare_madd msquare_dot msquare_mtranspose Ls) simp_all
  show "length periods = ?N" by (simp add: periods length_vimag bl)
  show "length decayT = ?N" by (simp add: decayT length_vreal bl)
qed

subsection \<open>Runs on one-variable inputs\<close>

lemmas lin_defs = numpy_1x1_def rdot_def cdot_def gdot_def ncols_def np_transpose_def take_idx_def
  sort_by_def diag_beta_def map2_mat_def czero_def of_fval_def nDat_of_def signed_inf_def

lemma lib_shapes_numpy_1x1: "lib_shapes numpy_1x1"
  unfolding lib_shapes_def numpy_1x1_def
  by (auto simp: square_def elim!: inv_1x1.elims eig_1x1.elims split: if_splits)

lemma cov_run_12: "covariances [[Fin 1, Fin 2]] 1 = Inr ([[Fin (5 / 2)]], [[Fin 2]])"
  by code_simp

lemma LIM_run_12:
  "LIM_fun numpy_1x1 [[Fin 1, Fin 2]] 1 =
     Inr (RVec [Fin (ln (4 / 5))], CMat [[Cx (Fin (ln (4 / 5))) (Fin 0)]],
          CMat [[Cx (Fin (- (5 * ln (4 / 5)))) (Fin 0)]], RMat [[Fin (4 / 5)]],
          [[Fin (5 / 2)]], [[Fin 2]], RMat [[Fin 1]], RMat [[Fin 1]],
          RVec [Fin (4 / 5)], [PInf], [Fin (- (1 / ln (4 / 5)))])"
  by (simp add: LIM_fun_def cov_run_12 lin_defs Let_def)

subsection \<open>A run on two variables\<close>

lemma cov_run_two:
  "covariances X_two 1
     = Inr ([[Fin (8 / 3), Fin (2 / 3)], [Fin (2 / 3), Fin (1 / 2)]], [[Fin 4, Fin 1], [Fin (- 1), Fin 0]])"
  by code_simp

lemma sqrt_25_16: "sqrt (25 / 16) = 5 / 4"
  by (rule real_sqrt_unique) (simp_all add: power2_eq_square)

lemma eig_two:
  "eig_triangular (RMat [[Fin (3 / 2), Fin 0], [Fin (- (9 / 16)), Fin (3 / 4)]])
     = Inr (RVec [Fin (3 / 4), Fin (3 / 2)], RMat [[Fin 0, Fin (4 / 5)], [Fin 1, Fin (- (3 / 5))]])"
  "eig_triangular (RMat [[Fin (3 / 2), Fin (- (9 / 16))], [Fin 0, Fin (3 / 4)]])
     = Inr (RVec [Fin (3 / 2), Fin (3 / 4)], RMat [[Fin 1, Fin (3 / 5)], [Fin 0, Fin (4 / 5)]])"
  by (simp_all add: Let_def sqrt_25_16)


lemmas two_defs = solver_triangular_def rdot_def cdot_def gdot_def ncols_def np_transpose_def
  take_idx_def sort_by_def sort_lt_def diag_beta_def map2_mat_def czero_def of_fval_def nDat_of_def
  signed_inf_def X_two_def

lemma inv_two:
  "inv_2x2 (RMat [[Fin (8 / 3), Fin (2 / 3)], [Fin (2 / 3), Fin (1 / 2)]])
     = Inr (RMat [[Fin (9 / 16), Fin (- (3 / 4))], [Fin (- (3 / 4)), Fin 3]])"
  "inv_2x2 (RMat [[Fin (4 / 5), Fin 0], [Fin 0, Fin (4 / 5)]])
     = Inr (RMat [[Fin (5 / 4), Fin 0], [Fin 0, Fin (5 / 4)]])"
  by simp_all

lemma G_two:
  "rdot [[Fin 4, Fin 1], [Fin (- 1), Fin 0]] [[Fin (9 / 16), Fin (- (3 / 4))], [Fin (- (3 / 4)), Fin 3]]
     = [[Fin (3 / 2), Fin 0], [Fin (- (9 / 16)), Fin (3 / 4)]]"
  by (simp add: rdot_def gdot_def ncols_def upt_rec)

lemma ln_signs: "ln (3 / 2 :: real) > 0" "ln (3 / 4 :: real) < 0"
  by simp_all

lemma LIM_fun_steps:
  assumes "covariances X lag = Inr (c0, cT)" "la_inv lib (RMat c0) = Inr c0_inv"
    and "dot (RMat cT) c0_inv = G"
    and "la_eig lib G = Inr (g0, u0)" "la_eig lib (mtranspose G) = Inr (eigVal_T, v0)"
    and "rev (argsort g0) = iSort" "rev (argsort eigVal_T) = iSortT"
    and "vdiv_int (np_log (vtake g0 iSort)) lag = b1"
    and "rev (argsort (RVec (map (fdiv (Fin (- 1))) (vreal b1)))) = p"
    and "take_cols (take_cols u0 iSort) p = u" "take_cols (take_cols v0 iSortT) p = v"
    and "vtake (vtake g0 iSort) p = g" "vtake b1 p = b_alpha"
    and "la_inv lib (dot (mtranspose u) v) = Inr nf_inv"
    and "dot u nf_inv = normU"
    and "dot normU (dot (diag_beta (nDat_of X) b_alpha) (mtranspose v)) = L"
    and "mneg (madd (dot L (RMat c0)) (dot (RMat c0) (mtranspose L))) = Q"
    and "map (fdiv (Fin (2 * pi))) (vimag b_alpha) = periods"
    and "map (fdiv (Fin (- 1))) (vreal b_alpha) = decayT"
  shows "LIM_fun lib X lag = Inr (b_alpha, L, Q, G, c0, cT, normU, v, g, periods, decayT)"
  using assms by (simp add: LIM_fun_def Let_def del: argsort.simps)

lemma ln_order_two: "\<not> 1 / ln (3 / 2 :: real) < 1 / ln (3 / 4)"
proof -
  have "1 / ln (3 / 4 :: real) < 0" "0 < 1 / ln (3 / 2 :: real)"
    by simp_all
  then show ?thesis by linarith
qed

lemma sorts_two:
  "rev (argsort (RVec [Fin (3 / 4), Fin (3 / 2)])) = [1, 0]"
  "rev (argsort (RVec [Fin (3 / 2), Fin (3 / 4)])) = [0, 1]"
  "vdiv_int (np_log (vtake (RVec [Fin (3 / 4), Fin (3 / 2)]) [1, 0])) 1
     = RVec [Fin (ln (3 / 2)), Fin (ln (3 / 4))]"
  "rev (argsort (RVec (map (fdiv (Fin (- 1))) (vreal (RVec [Fin (ln (3 / 2)), Fin (ln (3 / 4))])))))
     = [1, 0]"
  by (simp_all add: sort_by_def sort_lt_def take_idx_def upt_rec ln_order_two)

lemma modes_two:
  "take_cols (take_cols (RMat [[Fin 0, Fin (4 / 5)], [Fin 1, Fin (- (3 / 5))]]) [1, 0]) [1, 0]
     = RMat [[Fin 0, Fin (4 / 5)], [Fin 1, Fin (- (3 / 5))]]"
  "take_cols (take_cols (RMat [[Fin 1, Fin (3 / 5)], [Fin 0, Fin (4 / 5)]]) [0, 1]) [1, 0]
     = RMat [[Fin (3 / 5), Fin 1], [Fin (4 / 5), Fin 0]]"
  "vtake (vtake (RVec [Fin (3 / 4), Fin (3 / 2)]) [1, 0]) [1, 0] = RVec [Fin (3 / 4), Fin (3 / 2)]"
  "vtake (RVec [Fin (ln (3 / 2)), Fin (ln (3 / 4))]) [1, 0] = RVec [Fin (ln (3 / 4)), Fin (ln (3 / 2))]"
  "dot (mtranspose (RMat [[Fin 0, Fin (4 / 5)], [Fin 1, Fin (- (3 / 5))]]))
       (RMat [[Fin (3 / 5), Fin 1], [Fin (4 / 5), Fin 0]])
     = RMat [[Fin (4 / 5), Fin 0], [Fin 0, Fin (4 / 5)]]"
  "dot (RMat [[Fin 0, Fin (4 / 5)], [Fin 1, Fin (- (3 / 5))]])
       (RMat [[Fin (5 / 4), Fin 0], [Fin 0, Fin (5 / 4)]])
     = RMat [[Fin 0, Fin 1], [Fin (5 / 4), Fin (- (3 / 4))]]"
  by (simp_all add: take_idx_def rdot_def gdot_def ncols_def np_transpose_def upt_rec)

lemma L_two:
  "dot (RMat [[Fin 0, Fin 1], [Fin (5 / 4), Fin (- (3 / 4))]])
       (dot (diag_beta (nDat_of X_two) (RVec [Fin (ln (3 / 4)), Fin (ln (3 / 2))]))
            (mtranspose (RMat [[Fin (3 / 5), Fin 1], [Fin (4 / 5), Fin 0]])))
     = CMat [[Cx (Fin (ln (3 / 2))) (Fin 0), Cx (Fin 0) (Fin 0)],
             [Cx (Fin (3 / 4 * (ln (3 / 4) - ln (3 / 2)))) (Fin 0), Cx (Fin (ln (3 / 4))) (Fin 0)]]"
  by (simp add: two_defs upt_rec algebra_simps)

lemma Q_two:
  "mneg (madd
     (dot (CMat [[Cx (Fin (ln (3 / 2))) (Fin 0), Cx (Fin 0) (Fin 0)],
                 [Cx (Fin (3 / 4 * (ln (3 / 4) - ln (3 / 2)))) (Fin 0), Cx (Fin (ln (3 / 4))) (Fin 0)]])
          (RMat [[Fin (8 / 3), Fin (2 / 3)], [Fin (2 / 3), Fin (1 / 2)]]))
     (dot (RMat [[Fin (8 / 3), Fin (2 / 3)], [Fin (2 / 3), Fin (1 / 2)]])
          (mtranspose (CMat [[Cx (Fin (ln (3 / 2))) (Fin 0), Cx (Fin 0) (Fin 0)],
                 [Cx (Fin (3 / 4 * (ln (3 / 4) - ln (3 / 2)))) (Fin 0), Cx (Fin (ln (3 / 4))) (Fin 0)]]))))
   = CMat [[Cx (Fin (- (16 / 3 * ln (3 / 2)))) (Fin 0),
            Cx (Fin (4 / 3 * ln (3 / 2) - 8 / 3 * ln (3 / 4))) (Fin 0)],
           [Cx (Fin (4 / 3 * ln (3 / 2) - 8 / 3 * ln (3 / 4))) (Fin 0),
            Cx (Fin (ln (3 / 2) - 2 * ln (3 / 4))) (Fin 0)]]"
  by (simp add: two_defs upt_rec algebra_simps)

lemma tails_two:
  "map (fdiv (Fin (2 * pi))) (vimag (RVec [Fin (ln (3 / 4)), Fin (ln (3 / 2))])) = [PInf, PInf]"
  "map (fdiv (Fin (- 1))) (vreal (RVec [Fin (ln (3 / 4)), Fin (ln (3 / 2))]))
     = [Fin (- (1 / ln (3 / 4))), Fin (- (1 / ln (3 / 2)))]"
  by (simp_all add: signed_inf_def)

lemma LIM_run_two:
  "LIM_fun solver_triangular X_two 1 =
     Inr (RVec [Fin (ln (3 / 4)), Fin (ln (3 / 2))],
          CMat [[Cx (Fin (ln (3 / 2))) (Fin 0), Cx (Fin 0) (Fin 0)],
                [Cx (Fin (3 / 4 * (ln (3 / 4) - ln (3 / 2)))) (Fin 0), Cx (Fin (ln (3 / 4))) (Fin 0)]],
          CMat [[Cx (Fin (- (16 / 3 * ln (3 / 2)))) (Fin 0),
                 Cx (Fin (4 / 3 * ln (3 / 2) - 8 / 3 * ln (3 / 4))) (Fin 0)],
                [Cx (Fin (4 / 3 * ln (3 / 2) - 8 / 3 * ln (3 / 4))) (Fin 0),
                 Cx (Fin (ln (3 / 2) - 2 * ln (3 / 4))) (Fin 0)]],
          RMat [[Fin (3 / 2), Fin 0], [Fin (- (9 / 16)), Fin (3 / 4)]],
          [[Fin (8 / 3), Fin (2 / 3)], [Fin (2 / 3), Fin (1 / 2)]],
          [[Fin 4, Fin 1], [Fin (- 1), Fin 0]],
          RMat [[Fin 0, Fin 1], [Fin (5 / 4), Fin (- (3 / 4))]],
          RMat [[Fin (3 / 5), Fin 1], [Fin (4 / 5), Fin 0]],
          RVec [Fin (3 / 4), Fin (3 / 2)],
          [PInf, PInf],
          [Fin (- (1 / ln (3 / 4))), Fin (- (1 / ln (3 / 2)))])"
proof (rule LIM_fun_steps)
  show "covariances X_two 1
     = Inr ([[Fin (8 / 3), Fin (2 / 3)], [Fin (2 / 3), Fin (1 / 2)]], [[Fin 4, Fin 1], [Fin (- 1), Fin 0]])"
    by (rule cov_run_two)
  show "la_inv solver_triangular (RMat [[Fin (8 / 3), Fin (2 / 3)], [Fin (2 / 3), Fin (1 / 2)]])
     = Inr (RMat [[Fin (9 / 16), Fin (- (3 / 4))], [Fin (- (3 / 4)), Fin 3]])"
    by (simp add: solver_triangular_def)
  show "dot (RMat [[Fin 4, Fin 1], [Fin (- 1), Fin 0]])
            (RMat [[Fin (9 / 16), Fin (- (3 / 4))], [Fin (- (3 / 4)), Fin 3]])
     = RMat [[Fin (3 / 2), Fin 0], [Fin (- (9 / 16)), Fin (3 / 4)]]"
    by (simp add: G_two)
  show "la_eig solver_triangular (RMat [[Fin (3 / 2), Fin 0], [Fin (- (9 / 16)), Fin (3 / 4)]])
     = Inr (RVec [Fin (3 / 4), Fin (3 / 2)], RMat [[Fin 0, Fin (4 / 5)], [Fin 1, Fin (- (3 / 5))]])"
    by (simp add: solver_triangular_def eig_two del: eig_triangular.simps)
  show "la_eig solver_triangular (mtranspose (RMat [[Fin (3 / 2), Fin 0], [Fin (- (9 / 16)), Fin (3 / 4)]]))
     = Inr (RVec [Fin (3 / 2), Fin (3 / 4)], RMat [[Fin 1, Fin (3 / 5)], [Fin 0, Fin (4 / 5)]])"
    by (simp add: solver_triangular_def eig_two np_transpose_def ncols_def upt_rec
        del: eig_triangular.simps)
  show "la_inv solver_triangular (dot (mtranspose (RMat [[Fin 0, Fin (4 / 5)], [Fin 1, Fin (- (3 / 5))]]))
       (RMat [[Fin (3 / 5), Fin 1], [Fin (4 / 5), Fin 0]]))
     = Inr (RMat [[Fin (5 / 4), Fin 0], [Fin 0, Fin (5 / 4)]])"
    by (simp only: modes_two) (simp add: solver_triangular_def)
qed (rule sorts_two modes_two L_two Q_two tails_two)+

subsection \<open>The symmetry of c0\<close>

text \<open>
  Claim C10. When the computation returns, the returned \<open>c0\<close> is symmetric, entry for
  entry equal: entries \<open>(i, j)\<close> and \<open>(j, i)\<close> are the same sum of the same products
  divided by the same count. Nothing of the kind holds for \<open>cT\<close>: for the rows
  \<open>[1, 0]\<close> and \<open>[0, 1]\<close> and lag 1, \<open>cT[1,0] = 1\<close> and \<open>cT[0,1] = 0\<close>.
\<close>

theorem c0_symmetric_cT_not:
  "(LIM_fun lib X lag = Inr (b_alpha, L, Q, G, c0, cT, normU, v, g, periods, decayT)
      \<longrightarrow> (\<forall>i<nDat_of X. \<forall>j<nDat_of X. c0 ! i ! j = c0 ! j ! i))
   \<and> covariances [[Fin 1, Fin 0], [Fin 0, Fin 1]] 1
       = Inr ([[Fin (1 / 2), Fin 0], [Fin 0, Fin (1 / 2)]], [[Fin 0, Fin 0], [Fin 1, Fin 0]])
   \<and> [[Fin 0, Fin 0], [Fin 1, Fin 0]] ! 0 ! 1 \<noteq> [[Fin 0, Fin 0], [Fin 1, Fin (0::real)]] ! 1 ! 0"
proof (intro conjI impI allI)
  fix i j
  assume "LIM_fun lib X lag = Inr (b_alpha, L, Q, G, c0, cT, normU, v, g, periods, decayT)"
    and "i < nDat_of X" and "j < nDat_of X"
  then show "c0 ! i ! j = c0 ! j ! i"
    using LIM_fun_InrD covariances_c0_symmetric by (fastforce simp: nDat_of_def)
next
  show "covariances [[Fin 1, Fin 0], [Fin 0, Fin 1]] 1
       = Inr ([[Fin (1 / 2), Fin 0], [Fin 0, Fin (1 / 2)]], [[Fin 0, Fin 0], [Fin 1, Fin 0]])"
    by code_simp
next
  show "[[Fin 0, Fin 0], [Fin 1, Fin 0]] ! 0 ! 1 \<noteq> [[Fin 0, Fin 0], [Fin 1, Fin (0::real)]] ! 1 ! 0"
    by simp
qed

theorem c0_symmetric_cT_not_witness:
  "LIM_fun solver_triangular X_two 1 =
     Inr (RVec [Fin (ln (3 / 4)), Fin (ln (3 / 2))],
          CMat [[Cx (Fin (ln (3 / 2))) (Fin 0), Cx (Fin 0) (Fin 0)],
                [Cx (Fin (3 / 4 * (ln (3 / 4) - ln (3 / 2)))) (Fin 0), Cx (Fin (ln (3 / 4))) (Fin 0)]],
          CMat [[Cx (Fin (- (16 / 3 * ln (3 / 2)))) (Fin 0),
                 Cx (Fin (4 / 3 * ln (3 / 2) - 8 / 3 * ln (3 / 4))) (Fin 0)],
                [Cx (Fin (4 / 3 * ln (3 / 2) - 8 / 3 * ln (3 / 4))) (Fin 0),
                 Cx (Fin (ln (3 / 2) - 2 * ln (3 / 4))) (Fin 0)]],
          RMat [[Fin (3 / 2), Fin 0], [Fin (- (9 / 16)), Fin (3 / 4)]],
          [[Fin (8 / 3), Fin (2 / 3)], [Fin (2 / 3), Fin (1 / 2)]],
          [[Fin 4, Fin 1], [Fin (- 1), Fin 0]],
          RMat [[Fin 0, Fin 1], [Fin (5 / 4), Fin (- (3 / 4))]],
          RMat [[Fin (3 / 5), Fin 1], [Fin (4 / 5), Fin 0]],
          RVec [Fin (3 / 4), Fin (3 / 2)],
          [PInf, PInf],
          [Fin (- (1 / ln (3 / 4))), Fin (- (1 / ln (3 / 2)))]) \<and>
   0 < nDat_of X_two \<and> 1 < nDat_of X_two \<and>
   [[Fin (8 / 3), Fin (2 / 3)], [Fin (2 / 3), Fin (1 / 2)]] ! 0 ! 1
     = [[Fin (8 / 3), Fin (2 / 3)], [Fin (2 / 3), Fin (1 / 2 :: real)]] ! 1 ! 0"
proof -
  have n: "0 < nDat_of X_two" "1 < nDat_of X_two"
    by (simp_all add: nDat_of_def X_two_def)
  have "\<forall>i<nDat_of X_two. \<forall>j<nDat_of X_two.
      [[Fin (8 / 3), Fin (2 / 3)], [Fin (2 / 3), Fin (1 / 2)]] ! i ! j
        = [[Fin (8 / 3), Fin (2 / 3)], [Fin (2 / 3), Fin (1 / 2)]] ! j ! i"
    using c0_symmetric_cT_not[of solver_triangular X_two 1
        "RVec [Fin (ln (3 / 4)), Fin (ln (3 / 2))]" _ _ _
        "[[Fin (8 / 3), Fin (2 / 3)], [Fin (2 / 3), Fin (1 / 2)]]"] LIM_run_two
    by blast
  with n have "[[Fin (8 / 3), Fin (2 / 3)], [Fin (2 / 3), Fin (1 / 2)]] ! 0 ! 1
     = [[Fin (8 / 3), Fin (2 / 3)], [Fin (2 / 3), Fin (1 / 2 :: real)]] ! 1 ! 0"
    by blast
  with n LIM_run_two show ?thesis by blast
qed

subsection \<open>Pairs with no common finite sample\<close>

lemma spec_moment_no_overlap:
  assumes "\<And>t. t < n \<Longrightarrow> \<not> (isfinite (a t) \<and> isfinite (b t))"
  shows "spec_moment a b n = NaN"
proof -
  have "filter (\<lambda>t. isfinite (a t) \<and> isfinite (b t)) [0..<n] = []"
    using assms by (auto simp: filter_empty_conv)
  then show ?thesis
    by (simp add: spec_moment_def)
qed

lemma cov_run_nan: "covariances [[NaN, Fin 1]] 1 = Inr ([[Fin 1]], [[NaN]])"
  by code_simp

lemma LIM_run_nan: "LIM_fun numpy_1x1 [[NaN, Fin 1]] 1 = Inl LinAlgOther"
  by (simp add: LIM_fun_def cov_run_nan lin_defs Let_def)

text \<open>
  Claim C6 fails as stated: no \<open>InsufficientDataError\<close> exists in the code. For the one
  row \<open>[NaN, 1]\<close> and lag 1 no index has both \<open>X[0,t+1]\<close> and \<open>X[0,t]\<close> finite, and the
  covariance stage returns normally with \<open>cT = [[NaN]]\<close>.
\<close>

theorem no_overlap_counterexample:
  "covariances [[NaN, Fin 1]] 1 = Inr ([[Fin 1]], [[NaN]])"
  by (rule cov_run_nan)

text \<open>
  Claim C6, amended. For an input of reals and NaN markers and \<open>0 < lag < T\<close>, the
  covariance stage raises nothing. If no time index has both series of the pair \<open>(i, j)\<close>
  finite, entry \<open>(i, j)\<close> of \<open>c0\<close> is NaN (the quotient \<open>0/0\<close>); likewise for \<open>cT\<close> with
  the first series shifted by the lag. Both matrices go on to the next step.
\<close>

theorem no_overlap_gives_NaN:
  assumes "valid_input X" "0 < lag" "lag < int (nT_of X)" "i < nDat_of X" "j < nDat_of X"
  shows "\<exists>c0 cT. covariances X lag = Inr (c0, cT) \<and>
     ((\<forall>t<nT_of X. \<not> (isfinite (X ! i ! t) \<and> isfinite (X ! j ! t))) \<longrightarrow> c0 ! i ! j = NaN) \<and>
     ((\<forall>t<nT_of X - nat lag. \<not> (isfinite (X ! i ! (t + nat lag)) \<and> isfinite (X ! j ! t)))
         \<longrightarrow> cT ! i ! j = NaN)"
proof -
  let ?N = "nDat_of X"
  let ?c0 = "map (\<lambda>i. map (\<lambda>j. spec_c0 X i j) [0..<?N]) [0..<?N]"
  let ?cT = "map (\<lambda>i. map (\<lambda>j. spec_cT X (nat lag) i j) [0..<?N]) [0..<?N]"
  have cov: "covariances X lag = Inr (?c0, ?cT)"
    using assms(1-3) by (rule covariances_closed_form)
  have c0: "?c0 ! i ! j = spec_c0 X i j" and cT: "?cT ! i ! j = spec_cT X (nat lag) i j"
    using assms(4,5) by simp_all
  have "spec_c0 X i j = NaN" if "\<forall>t<nT_of X. \<not> (isfinite (X ! i ! t) \<and> isfinite (X ! j ! t))"
    unfolding spec_c0_def using that by (intro spec_moment_no_overlap) simp
  moreover have "spec_cT X (nat lag) i j = NaN"
    if "\<forall>t<nT_of X - nat lag. \<not> (isfinite (X ! i ! (t + nat lag)) \<and> isfinite (X ! j ! t))"
    unfolding spec_cT_def using that by (intro spec_moment_no_overlap) simp
  ultimately show ?thesis
    using cov c0 cT by metis
qed

theorem no_overlap_gives_NaN_witness:
  "valid_input [[NaN, Fin 1]] \<and> (0::int) < 1 \<and> 1 < int (nT_of [[NaN, Fin 1]])
   \<and> 0 < nDat_of [[NaN, Fin 1]]
   \<and> \<not> (isfinite ([[NaN, Fin 1]] ! 0 ! (0 + nat 1)) \<and> isfinite ([[NaN, Fin 1]] ! 0 ! 0))
   \<and> covariances [[NaN, Fin 1]] 1 = Inr ([[Fin 1]], [[NaN]])
   \<and> [[NaN]] ! 0 ! 0 = NaN"
proof -
  let ?X = "[[NaN, Fin 1]]"
  have v: "valid_input ?X" by code_simp
  have l: "1 < int (nT_of ?X)" by (simp add: nT_of_def)
  have n: "0 < nDat_of ?X" by (simp add: nDat_of_def)
  from no_overlap_gives_NaN[OF v _ l n n] obtain c0 cT where
    cov: "covariances ?X 1 = Inr (c0, cT)" and
    nan: "(\<forall>t<nT_of ?X - nat 1. \<not> (isfinite (?X ! 0 ! (t + nat 1)) \<and> isfinite (?X ! 0 ! t)))
         \<longrightarrow> cT ! 0 ! 0 = NaN"
    by auto
  have "cT = [[NaN]]" using cov by (simp add: cov_run_nan)
  moreover have "cT ! 0 ! 0 = NaN" using nan by (simp add: nT_of_def)
  ultimately show ?thesis
    using v l n cov_run_nan by simp
qed

subsection \<open>Lags outside the range\<close>

lemma LIM_fun_cov_error: "covariances X lag = Inl e \<Longrightarrow> LIM_fun lib X lag = Inl e"
  by (simp add: LIM_fun_def)

lemma bmul_broadcast_error:
  "length a \<noteq> length b \<Longrightarrow> length a \<noteq> 1 \<Longrightarrow> length b \<noteq> 1 \<Longrightarrow> bmul a b = Inl BroadcastError"
  by (simp add: bmul_def)

lemma moment_same_length: "length a = length b \<Longrightarrow> \<exists>m. moment a b = Inr m"
  by (simp add: moment_def bmul_def)

lemma covariances_first_entry_fails:
  assumes xl: "xLagged_of X lag = Inr xl" and ne: "X \<noteq> []"
    and m: "moment (xl ! 0) (slice_to (- lag) (X ! 0)) = Inl e"
  shows "covariances X lag = Inl e"
proof -
  have up: "[0..<length X] = 0 # [1..<length X]"
    using ne by (simp add: upt_conv_Cons)
  obtain m0 where m0: "moment (X ! 0) (X ! 0) = Inr m0"
    using moment_same_length[of "X ! 0" "X ! 0"] by auto
  have "cov_entry X xl lag 0 0 = Inl e"
    by (simp add: cov_entry_def m0 m)
  then show ?thesis
    by (simp add: covariances_def xl nDat_of_def up)
qed

lemma nT_of_hd: "X \<noteq> [] \<Longrightarrow> nT_of X = length (X ! 0)"
  by (cases X) (simp_all add: nT_of_def)

lemma covariances_negative_dimensions:
  assumes "int (nT_of X) < lag"
  shows "covariances X lag = Inl NegativeDimensions"
  using assms by (simp add: covariances_def xLagged_of_def)

lemma covariances_index_error:
  assumes "lag < - int (nT_of X)"
  shows "covariances X lag = Inl IndexOutOfBounds"
proof -
  have "[0..<nat (int (nT_of X) - lag)] = 0 # [1..<nat (int (nT_of X) - lag)]"
    using assms by (simp add: upt_conv_Cons)
  moreover have "get_col X lag = Inl IndexOutOfBounds"
    using assms by (simp add: get_col_def)
  ultimately show ?thesis
    using assms by (simp add: covariances_def xLagged_of_def)
qed

lemma covariances_lag_zero:
  assumes "rectangular X" "X \<noteq> []" "2 \<le> nT_of X"
  shows "covariances X 0 = Inl BroadcastError"
proof -
  have xl: "xLagged_of X 0 = Inr (map (drop (nat 0)) X)"
    using assms(1) by (intro xLagged_of_drop) simp_all
  have "bmul (X ! 0) [] = Inl BroadcastError"
    using assms nT_of_hd[OF assms(2)] by (intro bmul_broadcast_error) auto
  then have "moment (map (drop (nat 0)) X ! 0) (slice_to (- 0) (X ! 0)) = Inl BroadcastError"
    using assms(2) by (simp add: moment_def slice_to_def)
  with xl assms(2) show ?thesis
    by (rule covariances_first_entry_fails)
qed

lemma covariances_lag_negative:
  assumes "rectangular X" "X \<noteq> []" "- int (nT_of X) \<le> lag" "lag \<le> - 2"
  shows "covariances X lag = Inl BroadcastError"
proof -
  let ?T = "nT_of X"
  let ?xl = "map (\<lambda>r. map (\<lambda>t. r ! src_col X lag t) [0..<nat (int ?T - lag)]) X"
  have xl: "xLagged_of X lag = Inr ?xl"
    using assms(3,4) by (intro xLagged_of_closed) simp_all
  have len0: "length (X ! 0) = ?T"
    using nT_of_hd[OF assms(2)] by simp
  have la: "length (?xl ! 0) = nat (int ?T - lag)"
    using assms(2) by simp
  have lb: "length (slice_to (- lag) (X ! 0)) = nat (- lag)"
    using assms(3,4) len0 by (simp add: slice_to_def)
  have "bmul (?xl ! 0) (slice_to (- lag) (X ! 0)) = Inl BroadcastError"
  proof (rule bmul_broadcast_error)
    show "length (?xl ! 0) \<noteq> length (slice_to (- lag) (X ! 0))"
      unfolding la lb using assms(3,4) by linarith
    show "length (?xl ! 0) \<noteq> 1"
      unfolding la using assms(3,4) by linarith
    show "length (slice_to (- lag) (X ! 0)) \<noteq> 1"
      unfolding lb using assms(4) by linarith
  qed
  then have "moment (?xl ! 0) (slice_to (- lag) (X ! 0)) = Inl BroadcastError"
    by (simp add: moment_def)
  with xl assms(2) show ?thesis
    by (rule covariances_first_entry_fails)
qed

lemma LIM_run_neg_lag:
  "LIM_fun numpy_1x1 [[Fin 1, Fin 2]] (- 1) =
     Inr (RVec [Fin (- ln (2 / 3))], CMat [[Cx (Fin (- ln (2 / 3))) (Fin 0)]],
          CMat [[Cx (Fin (5 * ln (2 / 3))) (Fin 0)]], RMat [[Fin (2 / 3)]],
          [[Fin (5 / 2)]], [[Fin (5 / 3)]], RMat [[Fin 1]], RMat [[Fin 1]],
          RVec [Fin (2 / 3)], [PInf], [Fin (1 / ln (2 / 3))])"
proof -
  have "covariances [[Fin 1, Fin 2]] (- 1) = Inr ([[Fin (5 / 2)]], [[Fin (5 / 3)]])"
    by code_simp
  then show ?thesis
    by (simp add: LIM_fun_def lin_defs Let_def)
qed

text \<open>
  Claim C7 fails as stated: the code has no \<open>ShapeError\<close> and checks neither the lag
  nor the shape. With the one row \<open>[1, 2]\<close> and \<open>lag = -1\<close> the call returns a full
  result: the slice \<^verbatim>\<open>xDat_T[:-lag, iC]\<close> has length one and is broadcast.
\<close>

theorem lag_minus_one_counterexample:
  "LIM_fun numpy_1x1 [[Fin 1, Fin 2]] (- 1) =
     Inr (RVec [Fin (- ln (2 / 3))], CMat [[Cx (Fin (- ln (2 / 3))) (Fin 0)]],
          CMat [[Cx (Fin (5 * ln (2 / 3))) (Fin 0)]], RMat [[Fin (2 / 3)]],
          [[Fin (5 / 2)]], [[Fin (5 / 3)]], RMat [[Fin 1]], RMat [[Fin 1]],
          RVec [Fin (2 / 3)], [PInf], [Fin (1 / ln (2 / 3))])"
  by (rule LIM_run_neg_lag)

text \<open>
  Claim C7, amended. For an input of \<open>N \<ge> 1\<close> rows of length \<open>T\<close>: when \<open>lag > T\<close> the
  allocation of the lagged array raises (negative dimension); when \<open>lag = 0\<close> and
  \<open>T \<ge> 2\<close>, or \<open>-T \<le> lag \<le> -2\<close>, the first product of the double loop raises (the lengths
  do not broadcast); when \<open>lag < -T\<close> the first column read raises (index out of
  range). In each case the computation stops there, in the covariance step, and returns
  no result, whatever the library.
\<close>

theorem lag_out_of_range:
  assumes "rectangular X" "X \<noteq> []"
  shows "(int (nT_of X) < lag \<longrightarrow> LIM_fun lib X lag = Inl NegativeDimensions) \<and>
         (lag = 0 \<and> 2 \<le> nT_of X \<longrightarrow> LIM_fun lib X lag = Inl BroadcastError) \<and>
         (- int (nT_of X) \<le> lag \<and> lag \<le> - 2 \<longrightarrow> LIM_fun lib X lag = Inl BroadcastError) \<and>
         (lag < - int (nT_of X) \<longrightarrow> LIM_fun lib X lag = Inl IndexOutOfBounds)"
  using assms
  by (auto intro!: LIM_fun_cov_error covariances_negative_dimensions covariances_lag_zero
      covariances_lag_negative covariances_index_error)

theorem lag_out_of_range_witness:
  "rectangular [[Fin 1, Fin 2]] \<and> [[Fin 1, Fin 2]] \<noteq> [] \<and> nT_of [[Fin 1, Fin 2]] = 2 \<and>
   LIM_fun numpy_1x1 [[Fin 1, Fin 2]] 3 = Inl NegativeDimensions \<and>
   LIM_fun numpy_1x1 [[Fin 1, Fin 2]] 0 = Inl BroadcastError \<and>
   LIM_fun numpy_1x1 [[Fin 1, Fin 2]] (- 2) = Inl BroadcastError \<and>
   LIM_fun numpy_1x1 [[Fin 1, Fin 2]] (- 3) = Inl IndexOutOfBounds"
proof -
  let ?X = "[[Fin 1, Fin 2]]"
  have r: "rectangular ?X" and ne: "?X \<noteq> []" and T: "nT_of ?X = 2"
    by (simp_all add: rectangular_def nT_of_def)
  note w = lag_out_of_range[OF r ne, of _ numpy_1x1]
  have "LIM_fun numpy_1x1 ?X 3 = Inl NegativeDimensions" using w[of 3] by (simp add: T)
  moreover have "LIM_fun numpy_1x1 ?X 0 = Inl BroadcastError" using w[of 0] by (simp add: T)
  moreover have "LIM_fun numpy_1x1 ?X (- 2) = Inl BroadcastError" using w[of "- 2"] by (simp add: T)
  moreover have "LIM_fun numpy_1x1 ?X (- 3) = Inl IndexOutOfBounds" using w[of "- 3"] by (simp add: T)
  ultimately show ?thesis using r ne T by blast
qed

subsection \<open>Rates, periods and decay times\<close>

lemma take_idx_map:
  "(\<And>i. i \<in> set p \<Longrightarrow> i < length xs) \<Longrightarrow> take_idx (map f xs) p = map f (take_idx xs p)"
  by (simp add: take_idx_def)

lemma vtake_vdiv_log:
  assumes "\<And>i. i \<in> set p \<Longrightarrow> i < vlen w"
  shows "vtake (vdiv_int (np_log w) l) p = vdiv_int (np_log (vtake w p)) l"
  using assms by (cases w) (simp_all add: take_idx_def)

lemma LIM_fun_rates:
  assumes R: "LIM_fun lib X lag = Inr (b_alpha, L, Q, G, c0, cT, normU, v, g, periods, decayT)"
  shows "b_alpha = vdiv_int (np_log g) lag"
    and "periods = map (fdiv (Fin (2 * pi))) (vimag b_alpha)"
    and "decayT = map (fdiv (Fin (- 1))) (vreal b_alpha)"
proof -
  from LIM_fun_InrD[OF R] obtain g1 b1 p where
    b1: "b1 = vdiv_int (np_log g1) lag" and
    p: "p = rev (argsort (RVec (map (fdiv (Fin (- 1))) (vreal b1))))" and
    g: "g = vtake g1 p" and
    b_alpha: "b_alpha = vtake b1 p" and
    periods: "periods = map (fdiv (Fin (2 * pi))) (vimag b_alpha)" and
    decayT: "decayT = map (fdiv (Fin (- 1))) (vreal b_alpha)"
    by blast
  have "set p = {..<vlen g1}"
    using argsort_perm[of "RVec (map (fdiv (Fin (- 1))) (vreal b1))"]
    by (simp add: p b1 length_vreal vlen_vdiv_int vlen_np_log del: argsort.simps)
  then have "i < vlen g1" if "i \<in> set p" for i using that by auto
  then show "b_alpha = vdiv_int (np_log g) lag"
    unfolding b_alpha g b1 by (rule vtake_vdiv_log)
  show "periods = map (fdiv (Fin (2 * pi))) (vimag b_alpha)" by (fact periods)
  show "decayT = map (fdiv (Fin (- 1))) (vreal b_alpha)" by (fact decayT)
qed

lemma Arg_minus_one: "Arg (- 1) = pi"
  by (rule cis_Arg_unique) (simp_all add: sgn_eq)

lemma clog_principal:
  assumes "a \<noteq> 0 \<or> b \<noteq> 0"
  shows "clog (Cx (Fin a) (Fin b)) = Cx (Fin (ln (cmod (Complex a b)))) (Fin (Arg (Complex a b)))"
proof -
  have "0 < a * a + b * b"
    using assms by (simp add: sum_squares_gt_zero_iff)
  then show ?thesis
    by (simp add: cmod_def power2_eq_square)
qed

lemma LIM_run_nyquist:
  "LIM_fun numpy_1x1 [[Fin 1, Fin (- 1)]] 1 =
     Inr (RVec [NaN], CMat [[Cx NaN NaN]], CMat [[Cx NaN NaN]], RMat [[Fin (- 1)]],
          [[Fin 1]], [[Fin (- 1)]], RMat [[Fin 1]], RMat [[Fin 1]],
          RVec [Fin (- 1)], [PInf], [NaN])"
proof -
  have "covariances [[Fin 1, Fin (- 1)]] 1 = Inr ([[Fin 1]], [[Fin (- 1)]])"
    by code_simp
  then show ?thesis
    by (simp add: LIM_fun_def lin_defs Let_def)
qed

lemma LIM_run_neutral:
  "LIM_fun numpy_1x1 [[Fin 1, Fin 1]] 1 =
     Inr (RVec [Fin 0], CMat [[Cx (Fin 0) (Fin 0)]], CMat [[Cx (Fin 0) (Fin 0)]],
          RMat [[Fin 1]], [[Fin 1]], [[Fin 1]], RMat [[Fin 1]], RMat [[Fin 1]],
          RVec [Fin 1], [PInf], [NInf])"
proof -
  have "covariances [[Fin 1, Fin 1]] 1 = Inr ([[Fin 1]], [[Fin 1]])"
    by code_simp
  then show ?thesis
    by (simp add: LIM_fun_def lin_defs Let_def)
qed

text \<open>
  Claim C8 fails as stated: the logarithm is the principal complex one only when the
  eigenvalues come back as a complex array. For the one row \<open>[1, -1]\<close> and lag 1 the
  Green function is \<open>[[-1]]\<close>, its eigenvalue \<open>-1\<close> is returned in a real array, and
  \<^verbatim>\<open>np.log\<close> gives NaN: \<open>b_alpha[0]\<close> is NaN, where the principal complex logarithm of
  \<open>-1\<close> divided by the lag is \<open>0 + \<pi>j\<close>.
\<close>

theorem real_log_counterexample:
  "LIM_fun numpy_1x1 [[Fin 1, Fin (- 1)]] 1 =
     Inr (RVec [NaN], CMat [[Cx NaN NaN]], CMat [[Cx NaN NaN]], RMat [[Fin (- 1)]],
          [[Fin 1]], [[Fin (- 1)]], RMat [[Fin 1]], RMat [[Fin 1]],
          RVec [Fin (- 1)], [PInf], [NaN])
   \<and> cdiv_int (clog (of_fval (Fin (- 1)))) 1 = Cx (Fin 0) (Fin pi)
   \<and> to_cvec (RVec [NaN]) ! 0 \<noteq> Cx (Fin 0) (Fin pi)"
proof -
  have "Complex (- 1) 0 = - 1"
    by (simp add: complex_eq_iff)
  then have "cdiv_int (clog (of_fval (Fin (- 1)))) 1 = Cx (Fin 0) (Fin pi)"
    by (simp add: of_fval_def Arg_minus_one)
  then show ?thesis
    using LIM_run_nyquist by (simp add: of_fval_def)
qed

text \<open>
  Claim C8, amended. For every mode \<open>k\<close> of the returned outputs, \<open>b_alpha[k]\<close> is
  \<^verbatim>\<open>np.log\<close> of \<open>g[k]\<close> divided by the lag: the principal complex logarithm when the
  eigenvalues are a complex array, and the real logarithm (NaN for a negative
  eigenvalue, \<open>-inf\<close> for zero) when they are a real array;
  \<open>periods[k] = 2\<pi> / Im(b_alpha[k])\<close> and \<open>decayT[k] = -1 / Re(b_alpha[k])\<close>; where the
  imaginary or the real part of \<open>b_alpha[k]\<close> is zero, the period or the decay time is an
  infinity, and nothing is raised.
\<close>

theorem rates_periods_decay:
  assumes "LIM_fun lib X lag = Inr (b_alpha, L, Q, G, c0, cT, normU, v, g, periods, decayT)"
  shows "b_alpha = vdiv_int (np_log g) lag \<and>
     (\<forall>zs. g = CVec zs \<longrightarrow> b_alpha = CVec (map (\<lambda>z. cdiv_int (clog z) lag) zs)) \<and>
     (\<forall>xs. g = RVec xs \<longrightarrow> b_alpha = RVec (map (\<lambda>x. fdiv (rlog x) (Fin (real_of_int lag))) xs)) \<and>
     periods = map (fdiv (Fin (2 * pi))) (vimag b_alpha) \<and>
     decayT = map (fdiv (Fin (- 1))) (vreal b_alpha) \<and>
     (\<forall>k<vlen b_alpha. vimag b_alpha ! k = Fin 0 \<longrightarrow> periods ! k = PInf) \<and>
     (\<forall>k<vlen b_alpha. vreal b_alpha ! k = Fin 0 \<longrightarrow> isinf (decayT ! k))"
proof -
  note r = LIM_fun_rates[OF assms]
  have "periods ! k = PInf" if "k < vlen b_alpha" "vimag b_alpha ! k = Fin 0" for k
    using that by (simp add: r(2) length_vimag signed_inf_def)
  moreover have "isinf (decayT ! k)" if "k < vlen b_alpha" "vreal b_alpha ! k = Fin 0" for k
    using that by (simp add: r(3) length_vreal signed_inf_def)
  moreover have "b_alpha = CVec (map (\<lambda>z. cdiv_int (clog z) lag) zs)" if "g = CVec zs" for zs
    using r(1) that by (simp add: comp_def)
  moreover have "b_alpha = RVec (map (\<lambda>x. fdiv (rlog x) (Fin (real_of_int lag))) xs)" if "g = RVec xs" for xs
    using r(1) that by (simp add: comp_def)
  ultimately show ?thesis
    using r by blast
qed

theorem rates_periods_decay_witness:
  "LIM_fun numpy_1x1 [[Fin 1, Fin 1]] 1 =
     Inr (RVec [Fin 0], CMat [[Cx (Fin 0) (Fin 0)]], CMat [[Cx (Fin 0) (Fin 0)]],
          RMat [[Fin 1]], [[Fin 1]], [[Fin 1]], RMat [[Fin 1]], RMat [[Fin 1]],
          RVec [Fin 1], [PInf], [NInf])
   \<and> RVec [Fin 0] = vdiv_int (np_log (RVec [Fin 1])) 1
   \<and> vimag (RVec [Fin 0]) ! 0 = Fin 0 \<and> [PInf] ! 0 = PInf
   \<and> vreal (RVec [Fin 0]) ! 0 = Fin 0 \<and> isinf ([NInf] ! 0)"
proof -
  note w = rates_periods_decay[OF LIM_run_neutral]
  have k: "0 < vlen (RVec [Fin 0])" "vimag (RVec [Fin 0]) ! 0 = Fin 0" "vreal (RVec [Fin 0]) ! 0 = Fin 0"
    by simp_all
  from w have "RVec [Fin 0] = vdiv_int (np_log (RVec [Fin 1])) 1" by blast
  moreover from w k have "[PInf] ! 0 = PInf" by blast
  moreover from w k have "isinf ([NInf] ! 0)" by blast
  ultimately show ?thesis
    using LIM_run_neutral k by blast
qed

subsection \<open>The balance of L, c0 and Q\<close>

lemma cadd_cneg: "cfinite z \<Longrightarrow> cadd z (cneg z) = czero"
  by (cases z) (auto simp: cfinite_def czero_def elim!: isfinite.elims)

lemma map2_mat_same:
  "map2_mat f A (map (map g) A) = map (map (\<lambda>x. f x (g x))) A"
  by (simp add: map2_mat_def zip_map2 zip_same_conv_map comp_def case_prod_unfold)

lemma replicate_square:
  assumes "square n A"
  shows "map (map (\<lambda>_. c)) A = replicate n (replicate n c)"
  using assms
  by (intro nth_equalityI) (auto simp: square_def list_all_length map_replicate_const)

lemma madd_mneg_finite:
  assumes "square n A" "list_all (list_all cfinite) A"
  shows "madd (CMat A) (mneg (CMat A)) = czeros n"
proof -
  have "map (map (\<lambda>x. cadd x (cneg x))) A = map (map (\<lambda>_. czero)) A"
    using assms(2) by (auto simp: list_all_iff cadd_cneg)
  then show ?thesis
    by (simp add: map2_mat_same czeros_def replicate_square[OF assms(1)])
qed

lemma dot_CMat_left: "\<exists>C. dot (CMat A) B = CMat C"
  by (cases B) simp_all

lemma dot_CMat_right: "\<exists>C. dot A (CMat B) = CMat C"
  by (cases A) simp_all

lemma madd_CMat: "\<exists>C. madd (CMat A) (CMat B) = CMat C"
  by simp

lemma LIM_fun_balance:
  assumes R: "LIM_fun lib X lag = Inr (b_alpha, L, Q, G, c0, cT, normU, v, g, periods, decayT)"
  shows "Q = mneg (madd (dot L (RMat c0)) (dot (RMat c0) (mtranspose L)))"
    and "\<exists>Z. madd (dot L (RMat c0)) (dot (RMat c0) (mtranspose L)) = CMat Z"
proof -
  from LIM_fun_InrD[OF R] obtain normU' beta' vT where
    L: "L = dot normU' (dot (diag_beta (nDat_of X) beta') vT)" and
    Q: "Q = mneg (madd (dot L (RMat c0)) (dot (RMat c0) (mtranspose L)))"
    by blast
  show "Q = mneg (madd (dot L (RMat c0)) (dot (RMat c0) (mtranspose L)))" by (fact Q)
  obtain B where "dot (diag_beta (nDat_of X) beta') vT = CMat B"
    unfolding diag_beta_def using dot_CMat_left by blast
  then obtain Lc where Lc: "L = CMat Lc"
    unfolding L using dot_CMat_right by metis
  obtain Z1 where Z1: "dot L (RMat c0) = CMat Z1" unfolding Lc using dot_CMat_left by blast
  obtain Z2 where Z2: "dot (RMat c0) (mtranspose L) = CMat Z2" unfolding Lc by simp
  show "\<exists>Z. madd (dot L (RMat c0)) (dot (RMat c0) (mtranspose L)) = CMat Z"
    unfolding Z1 Z2 by simp
qed

lemma LIM_run_zero:
  "LIM_fun numpy_1x1 [[Fin 1, Fin 0]] 1 =
     Inr (RVec [NInf], CMat [[Cx NaN NaN]], CMat [[Cx NaN NaN]], RMat [[Fin 0]],
          [[Fin (1 / 2)]], [[Fin 0]], RMat [[Fin 1]], RMat [[Fin 1]],
          RVec [Fin 0], [PInf], [Fin 0])"
proof -
  have "covariances [[Fin 1, Fin 0]] 1 = Inr ([[Fin (1 / 2)]], [[Fin 0]])"
    by code_simp
  then show ?thesis
    by (simp add: LIM_fun_def lin_defs Let_def)
qed

text \<open>
  Claim C2 fails as stated on outputs that are not finite. For the one row \<open>[1, 0]\<close> and
  lag 1 the Green function is \<open>[[0]]\<close>, the logarithm of its eigenvalue is \<open>-inf\<close>, and
  \<open>L\<close> and \<open>Q\<close> are NaN: the sum \<open>L c0 + c0 L\<^sup>T + Q\<close> is NaN, not zero.
\<close>

theorem balance_counterexample:
  "LIM_fun numpy_1x1 [[Fin 1, Fin 0]] 1 =
     Inr (RVec [NInf], CMat [[Cx NaN NaN]], CMat [[Cx NaN NaN]], RMat [[Fin 0]],
          [[Fin (1 / 2)]], [[Fin 0]], RMat [[Fin 1]], RMat [[Fin 1]],
          RVec [Fin 0], [PInf], [Fin 0])
   \<and> madd (madd (dot (CMat [[Cx NaN NaN]]) (RMat [[Fin (1 / 2)]]))
                 (dot (RMat [[Fin (1 / 2)]]) (mtranspose (CMat [[Cx NaN NaN]]))))
           (CMat [[Cx NaN NaN]])
       = CMat [[Cx NaN NaN]]
   \<and> CMat [[Cx NaN NaN]] \<noteq> czeros 1"
  using LIM_run_zero by (simp add: lin_defs czeros_def)

text \<open>
  Claim C2, amended. When the computation returns, \<open>Q\<close> is the negation, entry by entry,
  of \<open>L c0 + c0 L\<^sup>T\<close> for the returned \<open>L\<close> and \<open>c0\<close>; and when every entry of
  \<open>L c0 + c0 L\<^sup>T\<close> is finite, \<open>L c0 + c0 L\<^sup>T + Q\<close> is the zero \<open>N \<times> N\<close> matrix.
\<close>

theorem fluctuation_dissipation:
  assumes "LIM_fun lib X lag = Inr (b_alpha, L, Q, G, c0, cT, normU, v, g, periods, decayT)"
    and "lib_shapes lib"
  shows "Q = mneg (madd (dot L (RMat c0)) (dot (RMat c0) (mtranspose L))) \<and>
    (mfinite (madd (dot L (RMat c0)) (dot (RMat c0) (mtranspose L))) \<longrightarrow>
       madd (madd (dot L (RMat c0)) (dot (RMat c0) (mtranspose L))) Q = czeros (nDat_of X))"
proof -
  let ?Z = "madd (dot L (RMat c0)) (dot (RMat c0) (mtranspose L))"
  note b = LIM_fun_balance[OF assms(1)]
  note s = LIM_fun_shapes[OF assms]
  from b(2) obtain Z where Z: "?Z = CMat Z" by blast
  have "msquare (nDat_of X) ?Z"
    using s(2,5) by (intro msquare_madd msquare_dot msquare_mtranspose) simp_all
  then have sq: "square (nDat_of X) Z" by (simp add: Z)
  have "madd ?Z Q = czeros (nDat_of X)" if "mfinite ?Z"
    using that madd_mneg_finite[OF sq] unfolding b(1) Z by simp
  with b(1) show ?thesis by blast
qed

theorem fluctuation_dissipation_witness:
  "lib_shapes numpy_1x1 \<and>
   LIM_fun numpy_1x1 [[Fin 1, Fin 2]] 1 =
     Inr (RVec [Fin (ln (4 / 5))], CMat [[Cx (Fin (ln (4 / 5))) (Fin 0)]],
          CMat [[Cx (Fin (- (5 * ln (4 / 5)))) (Fin 0)]], RMat [[Fin (4 / 5)]],
          [[Fin (5 / 2)]], [[Fin 2]], RMat [[Fin 1]], RMat [[Fin 1]],
          RVec [Fin (4 / 5)], [PInf], [Fin (- (1 / ln (4 / 5)))]) \<and>
   madd (dot (CMat [[Cx (Fin (ln (4 / 5))) (Fin 0)]]) (RMat [[Fin (5 / 2)]]))
        (dot (RMat [[Fin (5 / 2)]]) (mtranspose (CMat [[Cx (Fin (ln (4 / 5))) (Fin 0)]])))
     = CMat [[Cx (Fin (5 * ln (4 / 5))) (Fin 0)]] \<and>
   mfinite (CMat [[Cx (Fin (5 * ln (4 / 5))) (Fin 0)]]) \<and>
   madd (CMat [[Cx (Fin (5 * ln (4 / 5))) (Fin 0)]]) (CMat [[Cx (Fin (- (5 * ln (4 / 5)))) (Fin 0)]])
     = czeros (nDat_of [[Fin 1, Fin 2]])"
proof -
  let ?L = "CMat [[Cx (Fin (ln (4 / 5))) (Fin 0)]]"
  let ?Z = "madd (dot ?L (RMat [[Fin (5 / 2)]])) (dot (RMat [[Fin (5 / 2)]]) (mtranspose ?L))"
  have Z: "?Z = CMat [[Cx (Fin (5 * ln (4 / 5))) (Fin 0)]]"
    by (simp add: lin_defs)
  have f: "mfinite (CMat [[Cx (Fin (5 * ln (4 / 5))) (Fin 0)]])"
    by (simp add: cfinite_def)
  from fluctuation_dissipation[OF LIM_run_12 lib_shapes_numpy_1x1]
  have "mfinite ?Z \<longrightarrow> madd ?Z (CMat [[Cx (Fin (- (5 * ln (4 / 5)))) (Fin 0)]])
      = czeros (nDat_of [[Fin 1, Fin 2]])"
    by (rule conjunct2)
  with f have "madd (CMat [[Cx (Fin (5 * ln (4 / 5))) (Fin 0)]])
      (CMat [[Cx (Fin (- (5 * ln (4 / 5)))) (Fin 0)]]) = czeros (nDat_of [[Fin 1, Fin 2]])"
    unfolding Z by blast
  then show ?thesis
    using lib_shapes_numpy_1x1 LIM_run_12 Z f by blast
qed

subsection \<open>The final ordering of the modes\<close>

lemma vreal_vtake:
  "(\<And>i. i \<in> set p \<Longrightarrow> i < vlen w) \<Longrightarrow> vreal (vtake w p) = take_idx (vreal w) p"
  by (cases w) (simp_all add: take_idx_def)

lemma final_perm_sorted:
  "sorted_wrt (\<lambda>x y. \<not> sort_lt x y) (take_idx xs (rev (argsort (RVec xs))))"
proof -
  have "sorted_wrt (\<lambda>i j. \<not> sort_lt (xs ! i) (xs ! j)) (rev (argsort (RVec xs)))"
    using argsort_sorted[of xs] by (simp add: sorted_wrt_rev del: argsort.simps)
  then show ?thesis
    by (simp add: take_idx_def sorted_wrt_map del: argsort.simps)
qed

lemma vnth_vtake: "k < length p \<Longrightarrow> vnth (vtake w p) k = vnth w (p ! k)"
  by (cases w) (simp_all add: take_idx_def)

lemma mcol_take_cols: "k < length p \<Longrightarrow> mcol (take_cols A p) k = mcol A (p ! k)"
  by (cases A) (simp_all add: take_idx_def)

lemma vimag_nth: "k < vlen w \<Longrightarrow> vimag w ! k = im_part (vnth w k)"
  by (cases w) (simp_all add: of_fval_def)

lemma vreal_nth: "k < vlen w \<Longrightarrow> vreal w ! k = re_part (vnth w k)"
  by (cases w) (simp_all add: of_fval_def)

text \<open>
  Claim C4. In the returned outputs one permutation \<open>p\<close> of the mode indices, the one
  that puts the key \<open>sortVal = -1/Re(b_alpha)\<close> in decreasing order, is applied to the
  eigenvalues, to the modes, to the adjoints and to \<open>b_alpha\<close> (each as it stood after the
  first sort): entry \<open>k\<close> of \<open>g\<close> and of \<open>b_alpha\<close> is entry \<open>p[k]\<close> of what they were,
  and column \<open>k\<close> of \<open>u\<close> and of \<open>v\<close> is column \<open>p[k]\<close> of what they were, where
  \<open>normU\<close> is \<open>u\<close> times the inverse of \<open>u\<^sup>T v\<close>. Entry \<open>k\<close> of \<open>periods\<close> and of
  \<open>decayT\<close> is computed from entry \<open>k\<close> of the permuted \<open>b_alpha\<close>. Hence \<open>decayT\<close> is
  the key in the order of \<open>p\<close> and is non-increasing in the order of the sort (NaN
  first), and \<open>g\<close>, \<open>u\<close>, \<open>v\<close>, \<open>b_alpha\<close>, \<open>periods\<close>, \<open>decayT\<close> share the ordering \<open>p\<close>.
\<close>

theorem modes_jointly_sorted:
  assumes "LIM_fun lib X lag = Inr (b_alpha, L, Q, G, c0, cT, normU, v, g, periods, decayT)"
  shows "\<exists>g0 u0 eigVal_T v0 g1 u1 v1 b1 sortVal p u nf_inv.
     la_eig lib G = Inr (g0, u0) \<and> la_eig lib (mtranspose G) = Inr (eigVal_T, v0) \<and>
     g1 = vtake g0 (rev (argsort g0)) \<and> u1 = take_cols u0 (rev (argsort g0)) \<and>
     v1 = take_cols v0 (rev (argsort eigVal_T)) \<and>
     b1 = vdiv_int (np_log g1) lag \<and>
     sortVal = map (fdiv (Fin (- 1))) (vreal b1) \<and>
     p = rev (argsort (RVec sortVal)) \<and>
     set p = {..<vlen g1} \<and> distinct p \<and> length p = vlen g1 \<and>
     sorted_wrt (\<lambda>x y. \<not> sort_lt x y) (take_idx sortVal p) \<and>
     g = vtake g1 p \<and> b_alpha = vtake b1 p \<and> u = take_cols u1 p \<and> v = take_cols v1 p \<and>
     la_inv lib (dot (mtranspose u) v) = Inr nf_inv \<and>
     normU = dot u nf_inv \<and>
     periods = map (fdiv (Fin (2 * pi))) (vimag b_alpha) \<and>
     decayT = map (fdiv (Fin (- 1))) (vreal b_alpha) \<and>
     decayT = take_idx sortVal p \<and>
     sorted_wrt (\<lambda>x y. \<not> sort_lt x y) decayT \<and>
     vlen g = vlen g1 \<and> vlen b_alpha = vlen g1 \<and>
     length periods = vlen g1 \<and> length decayT = vlen g1 \<and>
     (\<forall>k<vlen g1.
        vnth g k = vnth g1 (p ! k) \<and> vnth b_alpha k = vnth b1 (p ! k) \<and>
        mcol u k = mcol u1 (p ! k) \<and> mcol v k = mcol v1 (p ! k) \<and>
        periods ! k = fdiv (Fin (2 * pi)) (im_part (vnth b_alpha k)) \<and>
        decayT ! k = fdiv (Fin (- 1)) (re_part (vnth b_alpha k)) \<and>
        decayT ! k = sortVal ! (p ! k))"
proof -
  from LIM_fun_InrD[OF assms] obtain g0 u0 eigVal_T v0 nf_inv g1 b1 p u where
    eig: "la_eig lib G = Inr (g0, u0)" and
    eigT: "la_eig lib (mtranspose G) = Inr (eigVal_T, v0)" and
    g1: "g1 = vtake g0 (rev (argsort g0))" and
    b1: "b1 = vdiv_int (np_log g1) lag" and
    p: "p = rev (argsort (RVec (map (fdiv (Fin (- 1))) (vreal b1))))" and
    u: "u = take_cols (take_cols u0 (rev (argsort g0))) p" and
    v: "v = take_cols (take_cols v0 (rev (argsort eigVal_T))) p" and
    g: "g = vtake g1 p" and
    b_alpha: "b_alpha = vtake b1 p" and
    inv1: "la_inv lib (dot (mtranspose u) v) = Inr nf_inv" and
    normU: "normU = dot u nf_inv" and
    periods: "periods = map (fdiv (Fin (2 * pi))) (vimag b_alpha)" and
    decayT: "decayT = map (fdiv (Fin (- 1))) (vreal b_alpha)"
    by blast
  define sortVal where "sortVal = map (fdiv (Fin (- 1))) (vreal b1)"
  define u1 where "u1 = take_cols u0 (rev (argsort g0))"
  define v1 where "v1 = take_cols v0 (rev (argsort eigVal_T))"
  have p': "p = rev (argsort (RVec sortVal))"
    by (simp only: p sortVal_def)
  have len: "vlen b1 = vlen g1"
    by (simp add: b1 vlen_vdiv_int vlen_np_log)
  have lsv: "length sortVal = vlen g1"
    by (simp add: sortVal_def length_vreal len)
  have perm: "set p = {..<vlen g1}" "distinct p" "length p = vlen g1"
    using argsort_perm[of "RVec sortVal"] by (simp_all add: p' lsv del: argsort.simps)
  have inb: "i < vlen b1" if "i \<in> set p" for i
    using that perm len by auto
  then have "vreal b_alpha = take_idx (vreal b1) p"
    unfolding b_alpha by (rule vreal_vtake)
  moreover have "i < length (vreal b1)" if "i \<in> set p" for i
    using inb[OF that] by (simp add: length_vreal)
  ultimately have d2: "decayT = take_idx sortVal p"
    unfolding decayT sortVal_def by (simp add: take_idx_map)
  have s: "sorted_wrt (\<lambda>x y. \<not> sort_lt x y) (take_idx sortVal p)"
    unfolding p' by (rule final_perm_sorted)
  have s2: "sorted_wrt (\<lambda>x y. \<not> sort_lt x y) decayT"
    using s by (simp only: d2)
  have lens: "vlen g = vlen g1" "vlen b_alpha = vlen g1"
    "length periods = vlen g1" "length decayT = vlen g1"
    by (simp_all add: g b_alpha periods decayT vlen_vtake length_vimag length_vreal perm)
  have ent: "vnth g k = vnth g1 (p ! k) \<and> vnth b_alpha k = vnth b1 (p ! k) \<and>
        mcol u k = mcol u1 (p ! k) \<and> mcol v k = mcol v1 (p ! k) \<and>
        periods ! k = fdiv (Fin (2 * pi)) (im_part (vnth b_alpha k)) \<and>
        decayT ! k = fdiv (Fin (- 1)) (re_part (vnth b_alpha k)) \<and>
        decayT ! k = sortVal ! (p ! k)" if k: "k < vlen g1" for k
  proof -
    have kp: "k < length p" using k perm by simp
    have kb: "k < vlen b_alpha" using k lens by simp
    have "decayT ! k = sortVal ! (p ! k)"
      using kp by (simp add: d2 take_idx_def)
    moreover have "periods ! k = fdiv (Fin (2 * pi)) (im_part (vnth b_alpha k))"
      using kb by (simp add: periods length_vimag vimag_nth)
    moreover have "decayT ! k = fdiv (Fin (- 1)) (re_part (vnth b_alpha k))"
      using kb by (simp add: decayT length_vreal vreal_nth)
    ultimately show ?thesis
      using kp by (simp add: g b_alpha u v u1_def v1_def vnth_vtake mcol_take_cols)
  qed
  have u': "u = take_cols u1 p" and v': "v = take_cols v1 p"
    by (simp_all only: u v u1_def v1_def)
  from ent have ent': "\<forall>k<vlen g1.
        vnth g k = vnth g1 (p ! k) \<and> vnth b_alpha k = vnth b1 (p ! k) \<and>
        mcol u k = mcol u1 (p ! k) \<and> mcol v k = mcol v1 (p ! k) \<and>
        periods ! k = fdiv (Fin (2 * pi)) (im_part (vnth b_alpha k)) \<and>
        decayT ! k = fdiv (Fin (- 1)) (re_part (vnth b_alpha k)) \<and>
        decayT ! k = sortVal ! (p ! k)"
    by blast
  show ?thesis
    apply (rule_tac x = g0 in exI, rule_tac x = u0 in exI, rule_tac x = eigVal_T in exI)
    apply (rule_tac x = v0 in exI, rule_tac x = g1 in exI, rule_tac x = u1 in exI)
    apply (rule_tac x = v1 in exI, rule_tac x = b1 in exI, rule_tac x = sortVal in exI)
    apply (rule_tac x = p in exI, rule_tac x = u in exI, rule_tac x = nf_inv in exI)
    apply (intro conjI)
    by (fact eig eigT g1 u1_def v1_def b1 sortVal_def p' perm s g b_alpha u' v' inv1 normU
        periods decayT d2 s2 lens ent')+
qed


theorem modes_jointly_sorted_witness:
  "LIM_fun solver_triangular X_two 1 =
     Inr (RVec [Fin (ln (3 / 4)), Fin (ln (3 / 2))],
          CMat [[Cx (Fin (ln (3 / 2))) (Fin 0), Cx (Fin 0) (Fin 0)],
                [Cx (Fin (3 / 4 * (ln (3 / 4) - ln (3 / 2)))) (Fin 0), Cx (Fin (ln (3 / 4))) (Fin 0)]],
          CMat [[Cx (Fin (- (16 / 3 * ln (3 / 2)))) (Fin 0),
                 Cx (Fin (4 / 3 * ln (3 / 2) - 8 / 3 * ln (3 / 4))) (Fin 0)],
                [Cx (Fin (4 / 3 * ln (3 / 2) - 8 / 3 * ln (3 / 4))) (Fin 0),
                 Cx (Fin (ln (3 / 2) - 2 * ln (3 / 4))) (Fin 0)]],
          RMat [[Fin (3 / 2), Fin 0], [Fin (- (9 / 16)), Fin (3 / 4)]],
          [[Fin (8 / 3), Fin (2 / 3)], [Fin (2 / 3), Fin (1 / 2)]],
          [[Fin 4, Fin 1], [Fin (- 1), Fin 0]],
          RMat [[Fin 0, Fin 1], [Fin (5 / 4), Fin (- (3 / 4))]],
          RMat [[Fin (3 / 5), Fin 1], [Fin (4 / 5), Fin 0]],
          RVec [Fin (3 / 4), Fin (3 / 2)],
          [PInf, PInf],
          [Fin (- (1 / ln (3 / 4))), Fin (- (1 / ln (3 / 2)))]) \<and>
   la_eig solver_triangular (RMat [[Fin (3 / 2), Fin 0], [Fin (- (9 / 16)), Fin (3 / 4)]]) = Inr (RVec [Fin (3 / 4), Fin (3 / 2)], RMat [[Fin 0, Fin (4 / 5)], [Fin 1, Fin (- (3 / 5))]]) \<and>
   la_eig solver_triangular (mtranspose (RMat [[Fin (3 / 2), Fin 0], [Fin (- (9 / 16)), Fin (3 / 4)]])) = Inr (RVec [Fin (3 / 2), Fin (3 / 4)], RMat [[Fin 1, Fin (3 / 5)], [Fin 0, Fin (4 / 5)]]) \<and>
   [1, 0] = rev (argsort (RVec [Fin (- (1 / ln (3 / 2))), Fin (- (1 / ln (3 / 4)))])) \<and>
   set [1, 0] = {..<vlen (RVec [Fin (3 / 2), Fin (3 / 4)])} \<and>
   distinct ([1, 0] :: nat list) \<and>
   sorted_wrt (\<lambda>x y. \<not> sort_lt x y) (take_idx [Fin (- (1 / ln (3 / 2))), Fin (- (1 / ln (3 / 4)))] [1, 0]) \<and>
   RVec [Fin (3 / 4), Fin (3 / 2)] = vtake (RVec [Fin (3 / 2), Fin (3 / 4)]) [1, 0] \<and>
   RVec [Fin (ln (3 / 4)), Fin (ln (3 / 2))] = vtake (RVec [Fin (ln (3 / 2)), Fin (ln (3 / 4))]) [1, 0] \<and>
   RMat [[Fin 0, Fin (4 / 5)], [Fin 1, Fin (- (3 / 5))]] = take_cols (RMat [[Fin (4 / 5), Fin 0], [Fin (- (3 / 5)), Fin 1]]) [1, 0] \<and>
   RMat [[Fin (3 / 5), Fin 1], [Fin (4 / 5), Fin 0]] = take_cols (RMat [[Fin 1, Fin (3 / 5)], [Fin 0, Fin (4 / 5)]]) [1, 0] \<and>
   la_inv solver_triangular (dot (mtranspose (RMat [[Fin 0, Fin (4 / 5)], [Fin 1, Fin (- (3 / 5))]])) (RMat [[Fin (3 / 5), Fin 1], [Fin (4 / 5), Fin 0]])) = Inr (RMat [[Fin (5 / 4), Fin 0], [Fin 0, Fin (5 / 4)]]) \<and>
   RMat [[Fin 0, Fin 1], [Fin (5 / 4), Fin (- (3 / 4))]] = dot (RMat [[Fin 0, Fin (4 / 5)], [Fin 1, Fin (- (3 / 5))]]) (RMat [[Fin (5 / 4), Fin 0], [Fin 0, Fin (5 / 4)]]) \<and>
   [Fin (- (1 / ln (3 / 4))), Fin (- (1 / ln (3 / 2)))] = take_idx [Fin (- (1 / ln (3 / 2))), Fin (- (1 / ln (3 / 4)))] [1, 0] \<and>
   sorted_wrt (\<lambda>x y. \<not> sort_lt x y) [Fin (- (1 / ln (3 / 4))), Fin (- (1 / ln (3 / 2)))] \<and>
   vnth (RVec [Fin (3 / 4), Fin (3 / 2)]) 0 = vnth (RVec [Fin (3 / 2), Fin (3 / 4)]) ([1, 0] ! 0) \<and>
   vnth (RVec [Fin (ln (3 / 4)), Fin (ln (3 / 2))]) 0 = vnth (RVec [Fin (ln (3 / 2)), Fin (ln (3 / 4))]) ([1, 0] ! 0) \<and>
   mcol (RMat [[Fin 0, Fin (4 / 5)], [Fin 1, Fin (- (3 / 5))]]) 0 = mcol (RMat [[Fin (4 / 5), Fin 0], [Fin (- (3 / 5)), Fin 1]]) ([1, 0] ! 0) \<and>
   mcol (RMat [[Fin (3 / 5), Fin 1], [Fin (4 / 5), Fin 0]]) 0 = mcol (RMat [[Fin 1, Fin (3 / 5)], [Fin 0, Fin (4 / 5)]]) ([1, 0] ! 0) \<and>
   [PInf, PInf] ! 0 = fdiv (Fin (2 * pi)) (im_part (vnth (RVec [Fin (ln (3 / 4)), Fin (ln (3 / 2))]) 0)) \<and>
   [Fin (- (1 / ln (3 / 4))), Fin (- (1 / ln (3 / 2)))] ! 0 = fdiv (Fin (- 1)) (re_part (vnth (RVec [Fin (ln (3 / 4)), Fin (ln (3 / 2))]) 0)) \<and>
   [Fin (- (1 / ln (3 / 4))), Fin (- (1 / ln (3 / 2)))] ! 0 = [Fin (- (1 / ln (3 / 2))), Fin (- (1 / ln (3 / 4)))] ! ([1, 0] ! 0) \<and>
   vnth (RVec [Fin (3 / 4), Fin (3 / 2)]) 1 = vnth (RVec [Fin (3 / 2), Fin (3 / 4)]) ([1, 0] ! 1) \<and>
   vnth (RVec [Fin (ln (3 / 4)), Fin (ln (3 / 2))]) 1 = vnth (RVec [Fin (ln (3 / 2)), Fin (ln (3 / 4))]) ([1, 0] ! 1) \<and>
   mcol (RMat [[Fin 0, Fin (4 / 5)], [Fin 1, Fin (- (3 / 5))]]) 1 = mcol (RMat [[Fin (4 / 5), Fin 0], [Fin (- (3 / 5)), Fin 1]]) ([1, 0] ! 1) \<and>
   mcol (RMat [[Fin (3 / 5), Fin 1], [Fin (4 / 5), Fin 0]]) 1 = mcol (RMat [[Fin 1, Fin (3 / 5)], [Fin 0, Fin (4 / 5)]]) ([1, 0] ! 1) \<and>
   [PInf, PInf] ! 1 = fdiv (Fin (2 * pi)) (im_part (vnth (RVec [Fin (ln (3 / 4)), Fin (ln (3 / 2))]) 1)) \<and>
   [Fin (- (1 / ln (3 / 4))), Fin (- (1 / ln (3 / 2)))] ! 1 = fdiv (Fin (- 1)) (re_part (vnth (RVec [Fin (ln (3 / 4)), Fin (ln (3 / 2))]) 1)) \<and>
   [Fin (- (1 / ln (3 / 4))), Fin (- (1 / ln (3 / 2)))] ! 1 = [Fin (- (1 / ln (3 / 2))), Fin (- (1 / ln (3 / 4)))] ! ([1, 0] ! 1)"
proof -
  note t = modes_jointly_sorted[OF LIM_run_two]
  from t show ?thesis
  proof (elim exE conjE, goal_cases)
    case prems: (1 g0 u0 eigVal_T v0 g1 u1 v1 b1 sortVal p u nf_inv)
    from prems(1) have e1: "g0 = RVec [Fin (3 / 4), Fin (3 / 2)]" "u0 = RMat [[Fin 0, Fin (4 / 5)], [Fin 1, Fin (- (3 / 5))]]"
      by (simp_all add: solver_triangular_def eig_two del: eig_triangular.simps)
    from prems(2) have e2: "eigVal_T = RVec [Fin (3 / 2), Fin (3 / 4)]" "v0 = RMat [[Fin 1, Fin (3 / 5)], [Fin 0, Fin (4 / 5)]]"
      by (simp_all add: solver_triangular_def eig_two np_transpose_def ncols_def upt_rec
          del: eig_triangular.simps)
    from prems(3) have e3: "g1 = RVec [Fin (3 / 2), Fin (3 / 4)]"
      by (simp add: e1 sorts_two take_idx_def del: argsort.simps)
    from prems(4) have e4: "u1 = RMat [[Fin (4 / 5), Fin 0], [Fin (- (3 / 5)), Fin 1]]"
      by (simp add: e1 sorts_two take_idx_def del: argsort.simps)
    from prems(5) have e5: "v1 = RMat [[Fin 1, Fin (3 / 5)], [Fin 0, Fin (4 / 5)]]"
      by (simp add: e2 sorts_two take_idx_def del: argsort.simps)
    from prems(6) have e6: "b1 = RVec [Fin (ln (3 / 2)), Fin (ln (3 / 4))]"
      by (simp add: e3)
    from prems(7) have e7: "sortVal = [Fin (- (1 / ln (3 / 2))), Fin (- (1 / ln (3 / 4)))]"
      by (simp add: e6)
    from prems(8) have e8: "p = [1, 0]"
      using sorts_two(4) by (simp add: e7 del: argsort.simps)
    from prems(15) have e9: "u = RMat [[Fin 0, Fin (4 / 5)], [Fin 1, Fin (- (3 / 5))]]"
      by (simp add: e4 e8 take_idx_def)
    from prems(17) have e10: "nf_inv = RMat [[Fin (5 / 4), Fin 0], [Fin 0, Fin (5 / 4)]]"
      by (simp add: e9 modes_two solver_triangular_def del: dot.simps mtranspose.simps)
    note e = e1 e2 e3 e4 e5 e6 e7 e8 e9 e10
    have k: "(0::nat) < vlen g1" "(1::nat) < vlen g1"
      by (simp_all add: e3)
    note a0 = prems(27)[rule_format, OF k(1), unfolded e]
    note a1 = prems(27)[rule_format, OF k(2), unfolded e]
    note f = prems(1-26)[unfolded e]
    show ?thesis
      by (intro conjI) (fact LIM_run_two f | use a0 a1 in blast)+
  qed
qed

subsection \<open>Matrix algebra on finite values\<close>

lemma cfinite_cases: "cfinite z \<Longrightarrow> \<exists>a b. z = Cx (Fin a) (Fin b)"
  by (cases z) (auto simp: cfinite_def elim!: isfinite.elims)

lemma cfinite_cmul:
  assumes "cfinite a" "cfinite b"
  shows "cfinite (cmul a b) \<and> cx (cmul a b) = cx a * cx b"
proof -
  from assms obtain p q r s where "a = Cx (Fin p) (Fin q)" "b = Cx (Fin r) (Fin s)"
    by (auto dest!: cfinite_cases)
  then show ?thesis
    by (simp add: cfinite_def complex_eq_iff)
qed

lemma cfinite_cadd:
  assumes "cfinite a" "cfinite b"
  shows "cfinite (cadd a b) \<and> cx (cadd a b) = cx a + cx b"
proof -
  from assms obtain p q r s where "a = Cx (Fin p) (Fin q)" "b = Cx (Fin r) (Fin s)"
    by (auto dest!: cfinite_cases)
  then show ?thesis
    by (simp add: cfinite_def complex_eq_iff)
qed

lemma cfinite_of_fval: "isfinite x \<Longrightarrow> cfinite (of_fval x)"
  by (simp add: cfinite_def of_fval_def)

lemma cx_inject: "cfinite a \<Longrightarrow> cfinite b \<Longrightarrow> cx a = cx b \<Longrightarrow> a = b"
  by (auto dest!: cfinite_cases)

lemma cx_czero: "cx czero = 0" "cfinite czero"
  by (simp_all add: czero_def cfinite_def zero_complex.code)

lemma foldr_cadd:
  assumes "\<And>k. k \<in> set ks \<Longrightarrow> cfinite (f k)"
  shows "cfinite (foldr cadd (map f ks) czero) \<and>
         cx (foldr cadd (map f ks) czero) = (\<Sum>k\<leftarrow>ks. cx (f k))"
  using assms
proof (induction ks)
  case Nil
  show ?case by (simp add: cx_czero)
next
  case (Cons k ks)
  then have IH: "cfinite (foldr cadd (map f ks) czero)"
      "cx (foldr cadd (map f ks) czero) = (\<Sum>k\<leftarrow>ks. cx (f k))"
    by simp_all
  have fk: "cfinite (f k)" using Cons.prems by simp
  show ?case
    using cfinite_cadd[OF fk IH(1)] IH(2) by simp
qed

lemma cfin_nth: "cfin A \<Longrightarrow> square n A \<Longrightarrow> i < n \<Longrightarrow> j < n \<Longrightarrow> cfinite (A ! i ! j)"
  by (simp add: cfin_def square_def list_all_length)

lemma cfinI:
  assumes "square n A" "\<And>i j. i < n \<Longrightarrow> j < n \<Longrightarrow> cfinite (A ! i ! j)"
  shows "cfin A"
  using assms by (auto simp: cfin_def square_def list_all_length)

lemma cdot_nth:
  assumes "square n A" "square n B" "i < n" "j < n"
  shows "cdot A B ! i ! j = foldr cadd (map (\<lambda>k. cmul (A ! i ! k) (B ! k ! j)) [0..<n]) czero"
  using assms by (simp add: cdot_def gdot_def ncols_square square_length)

lemma cdot_entry:
  assumes A: "square n A" "cfin A" and B: "square n B" "cfin B" and ij: "i < n" "j < n"
  shows "cfinite (cdot A B ! i ! j)"
    and "cx (cdot A B ! i ! j) = (\<Sum>k<n. cx (A ! i ! k) * cx (B ! k ! j))"
proof -
  have fin: "cfinite (cmul (A ! i ! k) (B ! k ! j))" if "k \<in> set [0..<n]" for k
    using that cfin_nth[OF A(2,1) ij(1)] cfin_nth[OF B(2,1) _ ij(2)] by (simp add: cfinite_cmul)
  note f = foldr_cadd[of "[0..<n]" "\<lambda>k. cmul (A ! i ! k) (B ! k ! j)", OF fin]
  show "cfinite (cdot A B ! i ! j)"
    using f by (simp add: cdot_nth[OF A(1) B(1) ij])
  have "cx (cdot A B ! i ! j) = (\<Sum>k\<leftarrow>[0..<n]. cx (cmul (A ! i ! k) (B ! k ! j)))"
    using f by (simp add: cdot_nth[OF A(1) B(1) ij])
  also have "\<dots> = (\<Sum>k\<leftarrow>[0..<n]. cx (A ! i ! k) * cx (B ! k ! j))"
    using cfin_nth[OF A(2,1) ij(1)] cfin_nth[OF B(2,1) _ ij(2)]
    by (intro arg_cong[of _ _ sum_list] map_cong) (simp_all add: cfinite_cmul)
  also have "\<dots> = (\<Sum>k<n. cx (A ! i ! k) * cx (B ! k ! j))"
    by (simp add: interv_sum_list_conv_sum_set_nat lessThan_atLeast0)
  finally show "cx (cdot A B ! i ! j) = (\<Sum>k<n. cx (A ! i ! k) * cx (B ! k ! j))" .
qed

lemma square_cdot: "square n A \<Longrightarrow> square n B \<Longrightarrow> square n (cdot A B)"
  by (simp add: cdot_def square_gdot square_length)

lemma cfin_cdot:
  assumes "square n A" "cfin A" "square n B" "cfin B"
  shows "cfin (cdot A B)"
  using assms by (intro cfinI[OF square_cdot] cdot_entry(1)) simp_all

lemma transp_nth: "square n A \<Longrightarrow> i < n \<Longrightarrow> j < n \<Longrightarrow> np_transpose A ! i ! j = A ! j ! i"
  by (simp add: np_transpose_def ncols_square square_length)

lemma cfin_transp:
  assumes "square n A" "cfin A"
  shows "cfin (np_transpose A)"
proof (rule cfinI[OF square_transp[OF assms(1)]])
  fix i j assume ij: "i < n" "j < n"
  have "np_transpose A ! i ! j = A ! j ! i"
    using assms(1) ij by (rule transp_nth)
  then show "cfinite (np_transpose A ! i ! j)"
    using cfin_nth[OF assms(2,1) ij(2,1)] by simp
qed

lemma mat_eqI:
  assumes "square n A" "square n B" "\<And>i j. i < n \<Longrightarrow> j < n \<Longrightarrow> A ! i ! j = B ! i ! j"
  shows "A = B"
proof (rule nth_equalityI)
  show "length A = length B" using assms(1,2) by (simp add: square_def)
next
  fix i assume "i < length A"
  then have i: "i < n" using assms(1) by (simp add: square_def)
  have "length (A ! i) = n" "length (B ! i) = n"
    using assms(1,2) i by (simp_all add: square_def list_all_length)
  then show "A ! i = B ! i"
    using assms(3)[OF i] by (intro nth_equalityI) simp_all
qed

lemma square_cident: "square n (cident n)"
  by (simp add: cident_def square_def list_all_iff)

lemma cident_nth: "i < n \<Longrightarrow> j < n \<Longrightarrow> cident n ! i ! j = (if i = j then Cx (Fin 1) (Fin 0) else czero)"
  by (simp add: cident_def)

lemma cfin_cident: "cfin (cident n)"
  by (rule cfinI[OF square_cident]) (simp add: cident_nth cfinite_def czero_def)

lemma cx_cident: "i < n \<Longrightarrow> j < n \<Longrightarrow> cx (cident n ! i ! j) = (if i = j then 1 else 0)"
  by (simp add: cident_nth czero_def complex_eq_iff)

subsection \<open>Arrays of either type\<close>

lemma isfinite_cases: "isfinite x \<Longrightarrow> \<exists>a. x = Fin a"
  by (cases x) simp_all

lemma of_fval_fmul:
  assumes "isfinite a" "isfinite b"
  shows "isfinite (fmul a b)" "of_fval (fmul a b) = cmul (of_fval a) (of_fval b)"
  using assms by (auto dest!: isfinite_cases simp: of_fval_def)

lemma of_fval_fadd:
  assumes "isfinite a" "isfinite b"
  shows "isfinite (fadd a b)" "of_fval (fadd a b) = cadd (of_fval a) (of_fval b)"
  using assms by (auto dest!: isfinite_cases simp: of_fval_def)

lemma foldr_fadd_of_fval:
  assumes "\<And>k. k \<in> set ks \<Longrightarrow> isfinite (f k)"
  shows "isfinite (foldr fadd (map f ks) (Fin 0)) \<and>
         of_fval (foldr fadd (map f ks) (Fin 0)) = foldr cadd (map (\<lambda>k. of_fval (f k)) ks) czero"
  using assms
proof (induction ks)
  case Nil
  show ?case by (simp add: of_fval_def czero_def)
next
  case (Cons k ks)
  then have IH: "isfinite (foldr fadd (map f ks) (Fin 0))"
    "of_fval (foldr fadd (map f ks) (Fin 0)) = foldr cadd (map (\<lambda>k. of_fval (f k)) ks) czero"
    by simp_all
  have fk: "isfinite (f k)" using Cons.prems by simp
  show ?case
    using of_fval_fadd[OF fk IH(1)] IH(2) by simp
qed

lemma rdot_nth:
  assumes "square n A" "square n B" "i < n" "j < n"
  shows "rdot A B ! i ! j = foldr fadd (map (\<lambda>k. fmul (A ! i ! k) (B ! k ! j)) [0..<n]) (Fin 0)"
  using assms by (simp add: rdot_def gdot_def ncols_square square_length)

lemma square_rdot: "square n A \<Longrightarrow> square n B \<Longrightarrow> square n (rdot A B)"
  by (simp add: rdot_def square_gdot square_length)

lemma rfin_nth:
  "list_all (list_all isfinite) A \<Longrightarrow> square n A \<Longrightarrow> i < n \<Longrightarrow> j < n \<Longrightarrow> isfinite (A ! i ! j)"
  by (simp add: square_def list_all_length)

lemma map_map_nth:
  "square n A \<Longrightarrow> i < n \<Longrightarrow> j < n \<Longrightarrow> map (map f) A ! i ! j = f (A ! i ! j)"
  by (simp add: square_def list_all_length)

lemma to_cmat_rdot:
  assumes A: "square n A" "list_all (list_all isfinite) A"
    and B: "square n B" "list_all (list_all isfinite) B"
  shows "map (map of_fval) (rdot A B) = cdot (map (map of_fval) A) (map (map of_fval) B)"
proof (rule mat_eqI)
  show "square n (map (map of_fval) (rdot A B))"
    using A(1) B(1) by (simp add: square_map_map square_rdot)
  show "square n (cdot (map (map of_fval) A) (map (map of_fval) B))"
    using A(1) B(1) by (simp add: square_map_map square_cdot)
  fix i j assume ij: "i < n" "j < n"
  have fin: "isfinite (fmul (A ! i ! k) (B ! k ! j))" if "k \<in> set [0..<n]" for k
    using that rfin_nth[OF A(2,1) ij(1)] rfin_nth[OF B(2,1) _ ij(2)] by (simp add: of_fval_fmul)
  have "map (map of_fval) (rdot A B) ! i ! j = of_fval (rdot A B ! i ! j)"
    using square_rdot[OF A(1) B(1)] ij by (rule map_map_nth)
  also have "\<dots> = foldr cadd (map (\<lambda>k. of_fval (fmul (A ! i ! k) (B ! k ! j))) [0..<n]) czero"
    using foldr_fadd_of_fval[of "[0..<n]" "\<lambda>k. fmul (A ! i ! k) (B ! k ! j)", OF fin]
    by (simp add: rdot_nth[OF A(1) B(1) ij])
  also have "\<dots> = foldr cadd (map (\<lambda>k. cmul (map (map of_fval) A ! i ! k)
      (map (map of_fval) B ! k ! j)) [0..<n]) czero"
    using rfin_nth[OF A(2,1) ij(1)] rfin_nth[OF B(2,1) _ ij(2)] A(1) B(1) ij
    by (intro arg_cong[of _ _ "\<lambda>xs. foldr cadd xs czero"] map_cong)
       (simp_all add: of_fval_fmul map_map_nth)
  also have "\<dots> = cdot (map (map of_fval) A) (map (map of_fval) B) ! i ! j"
    using cdot_nth[OF square_map_map[OF A(1)] square_map_map[OF B(1)] ij, of of_fval of_fval] by simp
  finally show "map (map of_fval) (rdot A B) ! i ! j
      = cdot (map (map of_fval) A) (map (map of_fval) B) ! i ! j" .
qed

lemma to_cmat_dot:
  assumes "msquare n A" "mfinite A" "msquare n B" "mfinite B"
  shows "to_cmat (dot A B) = cdot (to_cmat A) (to_cmat B)"
  using assms by (cases A; cases B) (simp_all add: to_cmat_rdot)

lemma to_cmat_mtranspose:
  assumes "msquare n A"
  shows "to_cmat (mtranspose A) = np_transpose (to_cmat A)"
proof (cases A)
  case (RMat R)
  then have sq: "square n R" using assms by simp
  have "map (map of_fval) (np_transpose R) = np_transpose (map (map of_fval) R)"
  proof (rule mat_eqI)
    show "square n (map (map of_fval) (np_transpose R))"
      using sq by (simp add: square_map_map square_transp)
    show "square n (np_transpose (map (map of_fval) R))"
      using sq by (simp add: square_map_map square_transp)
    fix i j assume ij: "i < n" "j < n"
    have "map (map of_fval) (np_transpose R) ! i ! j = of_fval (np_transpose R ! i ! j)"
      using square_transp[OF sq] ij by (rule map_map_nth)
    also have "\<dots> = of_fval (R ! j ! i)"
      using transp_nth[OF sq ij] by simp
    also have "\<dots> = map (map of_fval) R ! j ! i"
      using map_map_nth[OF sq ij(2,1), of of_fval] by simp
    also have "\<dots> = np_transpose (map (map of_fval) R) ! i ! j"
      using transp_nth[OF square_map_map[OF sq] ij, of of_fval] by simp
    finally show "map (map of_fval) (np_transpose R) ! i ! j = np_transpose (map (map of_fval) R) ! i ! j" .
  qed
  with RMat show ?thesis by simp
next
  case (CMat C)
  then show ?thesis by simp
qed

lemma cfin_to_cmat: "mfinite A \<Longrightarrow> cfin (to_cmat A)"
  by (cases A) (auto simp: cfin_def list_all_iff cfinite_of_fval)

lemma mfinite_iff_cfin: "mfinite A \<longleftrightarrow> cfin (to_cmat A)"
  by (cases A) (auto simp: cfin_def list_all_iff cfinite_def of_fval_def)

lemma mfinite_dot:
  assumes "msquare n A" "mfinite A" "msquare n B" "mfinite B"
  shows "mfinite (dot A B)"
  unfolding mfinite_iff_cfin to_cmat_dot[OF assms]
  using assms by (intro cfin_cdot[where n = n] msquare_to_cmat cfin_to_cmat)

lemma mfinite_mtranspose:
  assumes "msquare n A" "mfinite A"
  shows "mfinite (mtranspose A)"
  unfolding mfinite_iff_cfin to_cmat_mtranspose[OF assms(1)]
  using assms by (intro cfin_transp[where n = n] msquare_to_cmat cfin_to_cmat)

subsection \<open>Singular matrices\<close>









lemma LIM_run_zero_row: "LIM_fun numpy_1x1 [[Fin 0, Fin 0]] 1 = Inl SingularMatrix"
proof -
  have "covariances [[Fin 0, Fin 0]] 1 = Inr ([[Fin 0]], [[Fin 0]])"
    by code_simp
  then show ?thesis
    by (simp add: LIM_fun_def lin_defs Let_def)
qed





subsection \<open>The returned fields\<close>

lemma lib_shapes_solver_triangular: "lib_shapes solver_triangular"
  unfolding lib_shapes_def solver_triangular_def
  by (auto simp: square_def Let_def elim!: inv_2x2.elims eig_triangular.elims split: if_splits)

text \<open>
  Claim C9. A call that returns gives the eleven values \<open>b_alpha, L, Q, G, c0, cT, normU,
  v, g, periods, decayT\<close> in this order; with \<open>N\<close> the number of rows of the input,
  \<open>b_alpha\<close>, \<open>g\<close>, \<open>periods\<close> and \<open>decayT\<close> have length \<open>N\<close> and the seven matrices are
  \<open>N \<times> N\<close>; and \<open>G\<close> is the product of \<open>cT\<close> with the inverse of \<open>c0\<close> that
  \<^verbatim>\<open>LA.inv\<close> returned. Which value stands at which place is fixed by what the values
  are: the fifth and sixth are the two covariance matrices of the input, the fourth is
  their Green function, the first is the logarithm of the ninth divided by the lag, the
  second is the product of the seventh, the diagonal matrix of the first and the
  transpose of the eighth, the third is minus the sum of the second times \<open>c0\<close> and its
  transpose, and the tenth and eleventh are \<open>2\<pi>\<close> over the imaginary parts and \<open>-1\<close> over
  the real parts of the first. The library is taken to return arrays of its documented
  shapes.
\<close>

theorem LIM_fun_eleven_fields:
  assumes "LIM_fun lib X lag = Inr r" and "lib_shapes lib"
  shows "\<exists>b_alpha L Q G c0 cT normU v g periods decayT c0_inv.
     r = (b_alpha, L, Q, G, c0, cT, normU, v, g, periods, decayT) \<and>
     vlen b_alpha = nDat_of X \<and> vlen g = nDat_of X \<and>
     length periods = nDat_of X \<and> length decayT = nDat_of X \<and>
     msquare (nDat_of X) L \<and> msquare (nDat_of X) Q \<and> msquare (nDat_of X) G \<and>
     square (nDat_of X) c0 \<and> square (nDat_of X) cT \<and>
     msquare (nDat_of X) normU \<and> msquare (nDat_of X) v \<and>
     covariances X lag = Inr (c0, cT) \<and>
     la_inv lib (RMat c0) = Inr c0_inv \<and> G = dot (RMat cT) c0_inv \<and>
     b_alpha = vdiv_int (np_log g) lag \<and>
     L = dot normU (dot (diag_beta (nDat_of X) b_alpha) (mtranspose v)) \<and>
     Q = mneg (madd (dot L (RMat c0)) (dot (RMat c0) (mtranspose L))) \<and>
     periods = map (fdiv (Fin (2 * pi))) (vimag b_alpha) \<and>
     decayT = map (fdiv (Fin (- 1))) (vreal b_alpha)"
proof -
  obtain b_alpha L Q G c0 cT normU v g periods decayT
    where r: "r = (b_alpha, L, Q, G, c0, cT, normU, v, g, periods, decayT)"
    by (metis prod_cases3)
  note R = assms(1)[unfolded r]
  from LIM_fun_InrD[OF R] obtain c0_inv where d:
    "covariances X lag = Inr (c0, cT)"
    "la_inv lib (RMat c0) = Inr c0_inv" "G = dot (RMat cT) c0_inv"
    "L = dot normU (dot (diag_beta (nDat_of X) b_alpha) (mtranspose v))"
    "Q = mneg (madd (dot L (RMat c0)) (dot (RMat c0) (mtranspose L)))"
    by blast
  note s = LIM_fun_shapes[OF R assms(2)]
  note t = LIM_fun_rates[OF R]
  show ?thesis
    apply (rule_tac x = b_alpha in exI, rule_tac x = L in exI, rule_tac x = Q in exI)
    apply (rule_tac x = G in exI, rule_tac x = c0 in exI, rule_tac x = cT in exI)
    apply (rule_tac x = normU in exI, rule_tac x = v in exI, rule_tac x = g in exI)
    apply (rule_tac x = periods in exI, rule_tac x = decayT in exI, rule_tac x = c0_inv in exI)
    apply (intro conjI)
    by (fact r s d t)+
qed


theorem LIM_fun_eleven_fields_witness:
  "lib_shapes solver_triangular \<and>
   LIM_fun solver_triangular X_two 1 =
     Inr (RVec [Fin (ln (3 / 4)), Fin (ln (3 / 2))],
          CMat [[Cx (Fin (ln (3 / 2))) (Fin 0), Cx (Fin 0) (Fin 0)],
                [Cx (Fin (3 / 4 * (ln (3 / 4) - ln (3 / 2)))) (Fin 0), Cx (Fin (ln (3 / 4))) (Fin 0)]],
          CMat [[Cx (Fin (- (16 / 3 * ln (3 / 2)))) (Fin 0),
                 Cx (Fin (4 / 3 * ln (3 / 2) - 8 / 3 * ln (3 / 4))) (Fin 0)],
                [Cx (Fin (4 / 3 * ln (3 / 2) - 8 / 3 * ln (3 / 4))) (Fin 0),
                 Cx (Fin (ln (3 / 2) - 2 * ln (3 / 4))) (Fin 0)]],
          RMat [[Fin (3 / 2), Fin 0], [Fin (- (9 / 16)), Fin (3 / 4)]],
          [[Fin (8 / 3), Fin (2 / 3)], [Fin (2 / 3), Fin (1 / 2)]],
          [[Fin 4, Fin 1], [Fin (- 1), Fin 0]],
          RMat [[Fin 0, Fin 1], [Fin (5 / 4), Fin (- (3 / 4))]],
          RMat [[Fin (3 / 5), Fin 1], [Fin (4 / 5), Fin 0]],
          RVec [Fin (3 / 4), Fin (3 / 2)],
          [PInf, PInf],
          [Fin (- (1 / ln (3 / 4))), Fin (- (1 / ln (3 / 2)))]) \<and>
   vlen (RVec [Fin (ln (3 / 4)), Fin (ln (3 / 2))]) = nDat_of X_two \<and>
   vlen (RVec [Fin (3 / 4), Fin (3 / 2)]) = nDat_of X_two \<and>
   length ([PInf, PInf] :: fval list) = nDat_of X_two \<and>
   length ([Fin (- (1 / ln (3 / 4))), Fin (- (1 / ln (3 / 2)))]) = nDat_of X_two \<and>
   msquare (nDat_of X_two) (CMat [[Cx (Fin (ln (3 / 2))) (Fin 0), Cx (Fin 0) (Fin 0)],
                [Cx (Fin (3 / 4 * (ln (3 / 4) - ln (3 / 2)))) (Fin 0), Cx (Fin (ln (3 / 4))) (Fin 0)]]) \<and>
   msquare (nDat_of X_two) (CMat [[Cx (Fin (- (16 / 3 * ln (3 / 2)))) (Fin 0),
                 Cx (Fin (4 / 3 * ln (3 / 2) - 8 / 3 * ln (3 / 4))) (Fin 0)],
                [Cx (Fin (4 / 3 * ln (3 / 2) - 8 / 3 * ln (3 / 4))) (Fin 0),
                 Cx (Fin (ln (3 / 2) - 2 * ln (3 / 4))) (Fin 0)]]) \<and>
   msquare (nDat_of X_two) (RMat [[Fin (3 / 2), Fin 0], [Fin (- (9 / 16)), Fin (3 / 4)]]) \<and>
   square (nDat_of X_two) [[Fin (8 / 3), Fin (2 / 3)], [Fin (2 / 3), Fin (1 / 2)]] \<and>
   square (nDat_of X_two) [[Fin 4, Fin 1], [Fin (- 1), Fin 0]] \<and>
   msquare (nDat_of X_two) (RMat [[Fin 0, Fin 1], [Fin (5 / 4), Fin (- (3 / 4))]]) \<and>
   msquare (nDat_of X_two) (RMat [[Fin (3 / 5), Fin 1], [Fin (4 / 5), Fin 0]]) \<and>
   covariances X_two 1 = Inr ([[Fin (8 / 3), Fin (2 / 3)], [Fin (2 / 3), Fin (1 / 2)]], [[Fin 4, Fin 1], [Fin (- 1), Fin 0]]) \<and>
   la_inv solver_triangular (RMat [[Fin (8 / 3), Fin (2 / 3)], [Fin (2 / 3), Fin (1 / 2)]]) = Inr (RMat [[Fin (9 / 16), Fin (- (3 / 4))], [Fin (- (3 / 4)), Fin 3]]) \<and>
   RMat [[Fin (3 / 2), Fin 0], [Fin (- (9 / 16)), Fin (3 / 4)]] = dot (RMat [[Fin 4, Fin 1], [Fin (- 1), Fin 0]]) (RMat [[Fin (9 / 16), Fin (- (3 / 4))], [Fin (- (3 / 4)), Fin 3]]) \<and>
   RVec [Fin (ln (3 / 4)), Fin (ln (3 / 2))] = vdiv_int (np_log (RVec [Fin (3 / 4), Fin (3 / 2)])) 1 \<and>
   CMat [[Cx (Fin (ln (3 / 2))) (Fin 0), Cx (Fin 0) (Fin 0)],
                [Cx (Fin (3 / 4 * (ln (3 / 4) - ln (3 / 2)))) (Fin 0), Cx (Fin (ln (3 / 4))) (Fin 0)]] = dot (RMat [[Fin 0, Fin 1], [Fin (5 / 4), Fin (- (3 / 4))]]) (dot (diag_beta (nDat_of X_two) (RVec [Fin (ln (3 / 4)), Fin (ln (3 / 2))])) (mtranspose (RMat [[Fin (3 / 5), Fin 1], [Fin (4 / 5), Fin 0]]))) \<and>
   CMat [[Cx (Fin (- (16 / 3 * ln (3 / 2)))) (Fin 0),
                 Cx (Fin (4 / 3 * ln (3 / 2) - 8 / 3 * ln (3 / 4))) (Fin 0)],
                [Cx (Fin (4 / 3 * ln (3 / 2) - 8 / 3 * ln (3 / 4))) (Fin 0),
                 Cx (Fin (ln (3 / 2) - 2 * ln (3 / 4))) (Fin 0)]] = mneg (madd (dot (CMat [[Cx (Fin (ln (3 / 2))) (Fin 0), Cx (Fin 0) (Fin 0)],
                [Cx (Fin (3 / 4 * (ln (3 / 4) - ln (3 / 2)))) (Fin 0), Cx (Fin (ln (3 / 4))) (Fin 0)]]) (RMat [[Fin (8 / 3), Fin (2 / 3)], [Fin (2 / 3), Fin (1 / 2)]])) (dot (RMat [[Fin (8 / 3), Fin (2 / 3)], [Fin (2 / 3), Fin (1 / 2)]]) (mtranspose (CMat [[Cx (Fin (ln (3 / 2))) (Fin 0), Cx (Fin 0) (Fin 0)],
                [Cx (Fin (3 / 4 * (ln (3 / 4) - ln (3 / 2)))) (Fin 0), Cx (Fin (ln (3 / 4))) (Fin 0)]])))) \<and>
   [PInf, PInf] = map (fdiv (Fin (2 * pi))) (vimag (RVec [Fin (ln (3 / 4)), Fin (ln (3 / 2))])) \<and>
   [Fin (- (1 / ln (3 / 4))), Fin (- (1 / ln (3 / 2)))] = map (fdiv (Fin (- 1))) (vreal (RVec [Fin (ln (3 / 4)), Fin (ln (3 / 2))]))"
proof -
  note t = LIM_fun_eleven_fields[OF LIM_run_two lib_shapes_solver_triangular]
  from t show ?thesis
  proof (elim exE conjE, goal_cases)
    case prems: (1 b_alpha L Q G c0 cT normU v g periods decayT c0_inv)
    from prems(1) have e: "b_alpha = RVec [Fin (ln (3 / 4)), Fin (ln (3 / 2))]"
      "L = CMat [[Cx (Fin (ln (3 / 2))) (Fin 0), Cx (Fin 0) (Fin 0)],
                [Cx (Fin (3 / 4 * (ln (3 / 4) - ln (3 / 2)))) (Fin 0), Cx (Fin (ln (3 / 4))) (Fin 0)]]"
      "Q = CMat [[Cx (Fin (- (16 / 3 * ln (3 / 2)))) (Fin 0),
                 Cx (Fin (4 / 3 * ln (3 / 2) - 8 / 3 * ln (3 / 4))) (Fin 0)],
                [Cx (Fin (4 / 3 * ln (3 / 2) - 8 / 3 * ln (3 / 4))) (Fin 0),
                 Cx (Fin (ln (3 / 2) - 2 * ln (3 / 4))) (Fin 0)]]"
      "G = RMat [[Fin (3 / 2), Fin 0], [Fin (- (9 / 16)), Fin (3 / 4)]]"
      "c0 = [[Fin (8 / 3), Fin (2 / 3)], [Fin (2 / 3), Fin (1 / 2)]]"
      "cT = [[Fin 4, Fin 1], [Fin (- 1), Fin 0]]"
      "normU = RMat [[Fin 0, Fin 1], [Fin (5 / 4), Fin (- (3 / 4))]]"
      "v = RMat [[Fin (3 / 5), Fin 1], [Fin (4 / 5), Fin 0]]"
      "g = RVec [Fin (3 / 4), Fin (3 / 2)]"
      "periods = [PInf, PInf]"
      "decayT = [Fin (- (1 / ln (3 / 4))), Fin (- (1 / ln (3 / 2)))]"
      by simp_all
    from prems(14) have ci: "c0_inv = RMat [[Fin (9 / 16), Fin (- (3 / 4))], [Fin (- (3 / 4)), Fin 3]]"
      by (simp add: e solver_triangular_def)
    note f = prems(2-)[unfolded e ci]
    show ?thesis
      by (intro conjI) (fact lib_shapes_solver_triangular LIM_run_two f)+
  qed
qed

end
